theory Spec2Isabelle
  imports Main "HOL-Library.Word"
begin

section \<open>The gateway's data\<close>

text \<open>
  The Go source is \<^verbatim>\<open>drive.go\<close>. Its structs are records here. Field names are the
  source's; a field whose name is taken already carries a suffix naming its struct
  (\<open>Id_file\<close>, \<open>FileSize_file\<close>, \<open>Parents_file\<close>, \<open>Id_parent\<close>, \<open>ClientID_cfg\<close>,
  \<open>ClientSecret_cfg\<close>). A Go \<^verbatim>\<open>error\<close> value is its message. An \<^verbatim>\<open>int64\<close> and a
  \<^verbatim>\<open>uint64\<close> are 64-bit words, so the conversion \<^verbatim>\<open>uint64(x)\<close> keeps the bits. An
  instant of \<^verbatim>\<open>time.Time\<close> is an integer count of clock units.
\<close>

datatype error = Error string

fun message :: "error \<Rightarrow> string" where
  "message (Error m) = m"

type_synonym time = int

record Account =
  ClientID :: string
  ClientSecret :: string

record Token =
  AccessToken :: string
  TokenType :: string
  RefreshToken :: string
  Expiry :: time

record Endpoint =
  AuthURL :: string
  TokenURL :: string

record Config =
  ClientID_cfg :: string
  ClientSecret_cfg :: string
  Endpoint :: Endpoint
  RedirectURL :: string
  Scopes :: "string list"

text \<open>The fields of \<^verbatim>\<open>gdrive.File\<close>, \<^verbatim>\<open>gdrive.ParentReference\<close> and
  \<^verbatim>\<open>gdrive.FileList\<close> that \<^verbatim>\<open>drive.go\<close> reads, and the two fields it reads of an
  \<^verbatim>\<open>http.Response\<close>.\<close>

record ParentReference =
  Id_parent :: string

record File =
  Id_file :: string
  Title :: string
  MimeType :: string
  FileSize_file :: "64 word"
  ModifiedDate :: string
  Parents_file :: "ParentReference list"
  DownloadUrl :: string

record FileList =
  Items :: "File list"
  NextPageToken :: string

record Response =
  StatusCode :: int
  ContentLength :: "64 word"

text \<open>\<^verbatim>\<open>APIObject\<close>, with the fields the struct literal of \<^verbatim>\<open>mapDriveToAPIObject\<close>
  sets.\<close>

record APIObject =
  ID :: string
  Parents :: "string list"
  Name :: string
  IsDir :: bool
  Size :: "64 word"
  MTime :: time
  DownloadURL :: string

text \<open>
  \<^verbatim>\<open>Drive\<close>: the fields the code of \<^verbatim>\<open>drive.go\<close> reads or writes. The \<^verbatim>\<open>Cache\<close> it
  holds lives in the world below, and its \<^verbatim>\<open>context\<close> is always the background one.
  \<^verbatim>\<open>activeAccountID\<close> is a Go \<^verbatim>\<open>int\<close>; it is compared with and bounded by the
  length of a slice, which the address space keeps far below \<open>2^63\<close>, so it is an
  unbounded integer here.
\<close>

record Drive =
  activeAccountID :: int
  accounts :: "Account list"
  tokens :: "Token list"
  configs :: "Config list"
  maxDelay :: int
  chunkDir :: string

text \<open>An authenticated HTTP client is the credential it was built from; a
  \<^verbatim>\<open>gdrive.Service\<close> is the client it wraps.\<close>

record Client =
  client_config :: Config
  client_token :: Token

record Service =
  client :: Client

section \<open>The outside world\<close>

text \<open>
  Everything \<^verbatim>\<open>drive.go\<close> reaches outside the process is a field of the world, and
  every function that has an effect takes the world and returns the new one.

  \<^item> The remote service answers from scripts, one per endpoint: the next call of
    \<^verbatim>\<open>Files.List(..).Do()\<close>, \<^verbatim>\<open>Files.Get(id).Do()\<close>, \<^verbatim>\<open>Files.Get(id).Download()\<close> or
    \<^verbatim>\<open>config.Exchange\<close> takes the head of its script, an error or a value as the
    library promises. Each call is appended to \<open>requests\<close>. A call on an empty script
    has no answer yet: the run is \<open>Pending\<close>.
  \<^item> \<open>clock\<close> gives the successive readings of \<^verbatim>\<open>time.Now()\<close> that
    \<^verbatim>\<open>drive.go\<close> takes, and \<open>clock_reads\<close> counts them.
  \<^item> \<open>stdin\<close> holds the results of the coming \<^verbatim>\<open>fmt.Scan\<close> calls (none left: end of
    input); \<open>stdout\<close> collects what \<^verbatim>\<open>fmt.Printf\<close> prints.
  \<^item> \<open>disk\<close> maps a path to the content of a readable file; \<open>write_error\<close> tells for
    which paths \<^verbatim>\<open>ioutil.WriteFile\<close> fails; \<open>write_calls\<close> lists the calls made. A
    failed write is taken to leave the old content; nothing here reads a file after
    writing it.
  \<^item> \<open>cache\<close> is the content of the \<^verbatim>\<open>Cache\<close>, keyed by identifier; \<open>store_error\<close>
    tells for which objects \<^verbatim>\<open>Cache.Store\<close> fails; \<open>store_calls\<close> lists the calls.
\<close>

datatype request =
    ListRequest Service string "string option"
  | GetRequest Service string
  | DownloadRequest Service string
  | ExchangeRequest Config string

record world =
  list_script :: "(error + FileList) list"
  get_script :: "(error + File) list"
  download_script :: "(error + Response) list"
  exchange_script :: "(error + Token) list"
  requests :: "request list"
  clock :: "nat \<Rightarrow> time"
  clock_reads :: nat
  stdin :: "(error + string) list"
  stdout :: "string list"
  disk :: "string \<rightharpoonup> string"
  write_error :: "string \<Rightarrow> error option"
  write_calls :: "(string \<times> string) list"
  cache :: "string \<rightharpoonup> APIObject"
  store_error :: "APIObject \<Rightarrow> error option"
  store_calls :: "APIObject list"

text \<open>
  A run of a function ends in one of three ways: it returns (\<open>Ret\<close>), the process
  stops (\<open>Crash\<close>: a runtime panic or \<^verbatim>\<open>log.Fatalf\<close>), or it waits for an answer the
  scripts do not hold (\<open>Pending\<close>).

  A function of \<^verbatim>\<open>drive.go\<close> that returns \<^verbatim>\<open>(x, nil)\<close> or \<^verbatim>\<open>(nil, err)\<close> returns the
  sum \<open>Inr x\<close> or \<open>Inl err\<close>; \<^verbatim>\<open>FileSize\<close>, whose first result is a number, returns
  the pair as Go does; a lone \<^verbatim>\<open>error\<close> result is an \<open>error option\<close>, \<open>None\<close> for
  \<^verbatim>\<open>nil\<close>.
\<close>

datatype 'a run = Pending | Crash string | Ret 'a

text \<open>
  The library functions that compute without the world are parameters: the
  construction of a service from a client, parsing and formatting an instant in the
  RFC3339 layout, the JSON encoding of a token list, the token list that
  \<^verbatim>\<open>json.Unmarshal\<close> leaves in its target (its error is not looked at), and the
  consent URL of a configuration.
\<close>

record lib =
  gdrive_New :: "Client \<Rightarrow> error + Service"
  time_Parse :: "string \<Rightarrow> error + time"
  time_Format :: "time \<Rightarrow> string"
  json_Marshal :: "Token list \<Rightarrow> error + string"
  json_Unmarshal :: "string \<Rightarrow> Token list"
  AuthCodeURL :: "Config \<Rightarrow> string"

definition time_Now :: "world \<Rightarrow> time \<times> world" where
  "time_Now w = (clock w (clock_reads w), w\<lparr>clock_reads := Suc (clock_reads w)\<rparr>)"

definition Files_List_Do ::
  "Service \<Rightarrow> string \<Rightarrow> string option \<Rightarrow> world \<Rightarrow> ((error + FileList) \<times> world) run" where
  "Files_List_Do svc q pageToken w =
     (case list_script w of
        [] \<Rightarrow> Pending
      | r # rs \<Rightarrow>
          Ret (r, w\<lparr>list_script := rs,
                    requests := requests w @ [ListRequest svc q pageToken]\<rparr>))"

definition Files_Get_Do ::
  "Service \<Rightarrow> string \<Rightarrow> world \<Rightarrow> ((error + File) \<times> world) run" where
  "Files_Get_Do svc ident w =
     (case get_script w of
        [] \<Rightarrow> Pending
      | r # rs \<Rightarrow>
          Ret (r, w\<lparr>get_script := rs, requests := requests w @ [GetRequest svc ident]\<rparr>))"

definition Files_Get_Download ::
  "Service \<Rightarrow> string \<Rightarrow> world \<Rightarrow> ((error + Response) \<times> world) run" where
  "Files_Get_Download svc ident w =
     (case download_script w of
        [] \<Rightarrow> Pending
      | r # rs \<Rightarrow>
          Ret (r, w\<lparr>download_script := rs,
                    requests := requests w @ [DownloadRequest svc ident]\<rparr>))"

definition Exchange ::
  "Config \<Rightarrow> string \<Rightarrow> world \<Rightarrow> ((error + Token) \<times> world) run" where
  "Exchange config code w =
     (case exchange_script w of
        [] \<Rightarrow> Pending
      | r # rs \<Rightarrow>
          Ret (r, w\<lparr>exchange_script := rs,
                    requests := requests w @ [ExchangeRequest config code]\<rparr>))"

definition fmt_Scan :: "world \<Rightarrow> (error + string) \<times> world" where
  "fmt_Scan w =
     (case stdin w of
        [] \<Rightarrow> (Inl (Error ''EOF''), w)
      | r # rs \<Rightarrow> (r, w\<lparr>stdin := rs\<rparr>))"

definition fmt_Printf :: "string \<Rightarrow> world \<Rightarrow> world" where
  "fmt_Printf s w = w\<lparr>stdout := stdout w @ [s]\<rparr>"

definition ioutil_ReadFile :: "string \<Rightarrow> world \<Rightarrow> error + string" where
  "ioutil_ReadFile path w =
     (case disk w path of
        None \<Rightarrow> Inl (Error (''open '' @ path))
      | Some content \<Rightarrow> Inr content)"

definition ioutil_WriteFile :: "string \<Rightarrow> string \<Rightarrow> world \<Rightarrow> error option \<times> world" where
  "ioutil_WriteFile path content w =
     (case write_error w path of
        Some err \<Rightarrow> (Some err, w\<lparr>write_calls := write_calls w @ [(path, content)]\<rparr>)
      | None \<Rightarrow>
          (None, w\<lparr>disk := (disk w)(path \<mapsto> content),
                    write_calls := write_calls w @ [(path, content)]\<rparr>))"

text \<open>
  Modelled from the spec: the \<^verbatim>\<open>Cache\<close> type and its \<^verbatim>\<open>Store\<close> method are not in
  \<^verbatim>\<open>drive.go\<close>. The spec gives \<^verbatim>\<open>Cache.Store(APIObject) -> Result<void, Error>\<close>, an
  upsert by identifier: a second report of an identifier overwrites the first.
\<close>

definition Cache_Store :: "APIObject \<Rightarrow> world \<Rightarrow> error option \<times> world" where
  "Cache_Store object w =
     (case store_error w object of
        Some err \<Rightarrow> (Some err, w\<lparr>store_calls := store_calls w @ [object]\<rparr>)
      | None \<Rightarrow>
          (None, w\<lparr>cache := (cache w)(ID object \<mapsto> object),
                    store_calls := store_calls w @ [object]\<rparr>))"

text \<open>The verb \<^verbatim>\<open>%v\<close> of \<^verbatim>\<open>fmt\<close> on an \<^verbatim>\<open>int\<close>: its decimal digits, after a minus
  sign when it is negative. On a string or an error it is the string or the message.\<close>

definition digit :: "nat \<Rightarrow> char" where
  "digit n = ''0123456789'' ! n"

fun show_nat :: "nat \<Rightarrow> string" where
  "show_nat n = (if n < 10 then [digit n] else show_nat (n div 10) @ [digit (n mod 10)])"

declare show_nat.simps [simp del]

definition show_int :: "int \<Rightarrow> string" where
  "show_int i = (if i < 0 then CHR ''-'' # show_nat (nat (- i)) else show_nat (nat i))"

definition quote :: string where
  "quote = [CHR 0x27]"

section \<open>The functions of drive.go\<close>

subsection \<open>mapDriveToAPIObject\<close>

text \<open>
  \<^verbatim>\<open>
  mtime, err := time.Parse(time.RFC3339, file.ModifiedDate)
  if nil != err { mtime = time.Now() }
  var parents []string
  for _, parent := range file.Parents { parents = append(parents, parent.Id) }
  return &APIObject{ID: file.Id, Parents: parents, Name: file.Title,
      IsDir: file.MimeType == "application/vnd.google-apps.folder",
      Size: uint64(file.FileSize), MTime: mtime, DownloadURL: file.DownloadUrl}
  \<close>
  The clock is read only when the date does not parse.
\<close>

definition mapDriveToAPIObject :: "lib \<Rightarrow> File \<Rightarrow> world \<Rightarrow> APIObject \<times> world" where
  "mapDriveToAPIObject L file w =
     (let (mtime, w1) =
            (case time_Parse L (ModifiedDate file) of
               Inr t \<Rightarrow> (t, w)
             | Inl err \<Rightarrow> time_Now w);
          parents = map Id_parent (Parents_file file)
      in (\<lparr>ID = Id_file file,
           Parents = parents,
           Name = Title file,
           IsDir = (MimeType file = ''application/vnd.google-apps.folder''),
           Size = FileSize_file file,
           MTime = mtime,
           DownloadURL = DownloadUrl file\<rparr>, w1))"

subsection \<open>getClient and rotateAccounts\<close>

text \<open>
  \<^verbatim>\<open>
  client := d.configs[d.activeAccountID-1].Client(d.context, &d.tokens[d.activeAccountID-1])
  return gdrive.New(client)
  \<close>
  An index outside either slice is a runtime panic.
\<close>

definition getClient :: "lib \<Rightarrow> Drive \<Rightarrow> (error + Service) run" where
  "getClient L d =
     (let i = activeAccountID d - 1 in
      if i < 0 \<or> int (length (configs d)) \<le> i \<or> int (length (tokens d)) \<le> i
      then Crash ''index out of range''
      else Ret (gdrive_New L \<lparr>client_config = configs d ! nat i,
                               client_token = tokens d ! nat i\<rparr>))"

text \<open>
  \<^verbatim>\<open>
  if (d.activeAccountID + 1) > len(d.configs) { d.activeAccountID = 1 }
  else { d.activeAccountID++ }
  \<close>
  Log output is not part of the model, here and below.
\<close>

definition rotateAccounts :: "Drive \<Rightarrow> Drive" where
  "rotateAccounts d =
     (if activeAccountID d + 1 > int (length (configs d))
      then d\<lparr>activeAccountID := 1\<rparr>
      else d\<lparr>activeAccountID := activeAccountID d + 1\<rparr>)"

subsection \<open>FileSize\<close>

text \<open>
  \<^verbatim>\<open>
  client, err := d.getClient()
  if nil != err { return 0, err }
  httpResponse, err := client.Files.Get(id).Download()
  if nil != err { return 0, err }
  statusCode := httpResponse.StatusCode
  if 200 == statusCode { return httpResponse.ContentLength, nil }
  return 0, fmt.Errorf("Invalid status code %v", statusCode)
  \<close>
\<close>

definition FileSize ::
  "lib \<Rightarrow> Drive \<Rightarrow> string \<Rightarrow> world \<Rightarrow> ((64 word \<times> error option) \<times> world) run" where
  "FileSize L d ident w =
     (case getClient L d of
        Pending \<Rightarrow> Pending
      | Crash m \<Rightarrow> Crash m
      | Ret (Inl err) \<Rightarrow> Ret ((0, Some err), w)
      | Ret (Inr svc) \<Rightarrow>
          (case Files_Get_Download svc ident w of
             Pending \<Rightarrow> Pending
           | Crash m \<Rightarrow> Crash m
           | Ret (Inl err, w1) \<Rightarrow> Ret ((0, Some err), w1)
           | Ret (Inr httpResponse, w1) \<Rightarrow>
               (let statusCode = StatusCode httpResponse in
                if 200 = statusCode
                then Ret ((ContentLength httpResponse, None), w1)
                else Ret ((0, Some (Error (''Invalid status code '' @ show_int statusCode))),
                          w1))))"

subsection \<open>GetObject\<close>

text \<open>
  \<^verbatim>\<open>
  client, err := d.getClient()
  if nil != err { return nil, err }
  o, err := client.Files.Get(id).Do()
  if nil != err { return nil, err }
  if o.FileSize == 0 {
      fileSize, err := d.FileSize(id)
      if nil != err { fileSize = o.FileSize }
      o.FileSize = fileSize
  }
  return mapDriveToAPIObject(o), nil
  \<close>
\<close>

definition GetObject ::
  "lib \<Rightarrow> Drive \<Rightarrow> string \<Rightarrow> world \<Rightarrow> ((error + APIObject) \<times> world) run" where
  "GetObject L d ident w =
     (case getClient L d of
        Pending \<Rightarrow> Pending
      | Crash m \<Rightarrow> Crash m
      | Ret (Inl err) \<Rightarrow> Ret (Inl err, w)
      | Ret (Inr svc) \<Rightarrow>
          (case Files_Get_Do svc ident w of
             Pending \<Rightarrow> Pending
           | Crash m \<Rightarrow> Crash m
           | Ret (Inl err, w1) \<Rightarrow> Ret (Inl err, w1)
           | Ret (Inr o1, w1) \<Rightarrow>
               (if FileSize_file o1 = 0
                then
                  (case FileSize L d ident w1 of
                     Pending \<Rightarrow> Pending
                   | Crash m \<Rightarrow> Crash m
                   | Ret ((fileSize, err), w2) \<Rightarrow>
                       (let fileSize' = (if err = None then fileSize else FileSize_file o1);
                            o2 = o1\<lparr>FileSize_file := fileSize'\<rparr>;
                            (object, w3) = mapDriveToAPIObject L o2 w2
                        in Ret (Inr object, w3)))
                else
                  (let (object, w2) = mapDriveToAPIObject L o1 w1
                   in Ret (Inr object, w2)))))"

subsection \<open>GetObjectsByParent\<close>

text \<open>
  The inner loop, \<^verbatim>\<open>for _, file := range r.Items { files = append(files,
  mapDriveToAPIObject(file)) }\<close>:
\<close>

fun appendMapped :: "lib \<Rightarrow> File list \<Rightarrow> APIObject list \<Rightarrow> world \<Rightarrow> APIObject list \<times> world" where
  "appendMapped L [] files w = (files, w)"
| "appendMapped L (file # rest) files w =
     (let (object, w1) = mapDriveToAPIObject L file w
      in appendMapped L rest (files @ [object]) w1)"

text \<open>
  The outer loop:
  \<^verbatim>\<open>
  for {
      query := client.Files.List().Q(fmt.Sprintf("'%v' in parents AND trashed = false", parentID))
      if "" != pageToken { query = query.PageToken(pageToken) }
      r, err := query.Do()
      if nil != err { break }
      for _, file := range r.Items { ... }
      pageToken = r.NextPageToken
      if "" == pageToken { break }
  }
  \<close>
  Each turn takes one answer from the list script, so the recursion ends with the
  script; a script of continued pages only leaves the run \<open>Pending\<close>.
\<close>

lemma mapDriveToAPIObject_remote:
  "list_script (snd (mapDriveToAPIObject L f w)) = list_script w
   \<and> requests (snd (mapDriveToAPIObject L f w)) = requests w"
  by (simp add: mapDriveToAPIObject_def time_Now_def split: sum.split prod.split)

lemma appendMapped_list_script:
  "list_script (snd (appendMapped L items files w)) = list_script w"
proof (induction items arbitrary: files w)
  case Nil
  then show ?case by simp
next
  case (Cons f rest)
  obtain object w1 where m: "mapDriveToAPIObject L f w = (object, w1)"
    by (cases "mapDriveToAPIObject L f w")
  have "list_script w1 = list_script w"
    using mapDriveToAPIObject_remote [of L f w] m by simp
  then show ?case using Cons [of "files @ [object]" w1] m by simp
qed

lemma Files_List_Do_shorter:
  "Files_List_Do svc q t w = Ret (r, w1) \<Longrightarrow> length (list_script w1) < length (list_script w)"
  by (auto simp: Files_List_Do_def split: list.splits)

function listPages ::
  "lib \<Rightarrow> Service \<Rightarrow> string \<Rightarrow> string \<Rightarrow> APIObject list \<Rightarrow> world \<Rightarrow> (APIObject list \<times> world) run" where
  "listPages L svc parentID pageToken files w =
     (case Files_List_Do svc
             (quote @ parentID @ quote @ '' in parents AND trashed = false'')
             (if [] \<noteq> pageToken then Some pageToken else None) w of
        Pending \<Rightarrow> Pending
      | Crash m \<Rightarrow> Crash m
      | Ret (Inl err, w1) \<Rightarrow> Ret (files, w1)
      | Ret (Inr r, w1) \<Rightarrow>
          (case appendMapped L (Items r) files w1 of
             (files', w2) \<Rightarrow>
               if [] = NextPageToken r then Ret (files', w2)
               else listPages L svc parentID (NextPageToken r) files' w2))"
  by pat_completeness auto
termination
proof (relation "measure (\<lambda>(L, svc, parentID, pageToken, files, w). length (list_script w))")
  show "wf (measure (\<lambda>(L, svc, parentID, pageToken, files, w). length (list_script w)))"
    by simp
next
  fix L svc parentID pageToken files w x3 x y x2 r files' w2
  assume call: "Files_List_Do svc (quote @ parentID @ quote @ '' in parents AND trashed = false'')
                  (if [] \<noteq> pageToken then Some pageToken else None) w = Ret x3"
    and x3: "(x, y) = x3" and x: "x = Inr x2"
    and am: "(files', w2) = appendMapped L (Items x2) files y"
  from call x3 have "length (list_script y) < length (list_script w)"
    by (metis Files_List_Do_shorter)
  moreover have "list_script w2 = list_script y"
    using appendMapped_list_script [of L "Items x2" files y] am [symmetric] by simp
  ultimately show "((L, svc, parentID, NextPageToken x2, files', w2),
                    (L, svc, parentID, pageToken, files, w))
                   \<in> measure (\<lambda>(L, svc, parentID, pageToken, files, w). length (list_script w))"
    by simp
qed

declare listPages.simps [simp del]

text \<open>
  \<^verbatim>\<open>
  client, err := d.getClient()
  if nil != err { return nil, err }
  var files []*APIObject
  pageToken := ""
  for { ... }
  return files, nil
  \<close>
\<close>

definition GetObjectsByParent ::
  "lib \<Rightarrow> Drive \<Rightarrow> string \<Rightarrow> world \<Rightarrow> ((error + APIObject list) \<times> world) run" where
  "GetObjectsByParent L d parentID w =
     (case getClient L d of
        Pending \<Rightarrow> Pending
      | Crash m \<Rightarrow> Crash m
      | Ret (Inl err) \<Rightarrow> Ret (Inl err, w)
      | Ret (Inr svc) \<Rightarrow>
          (case listPages L svc parentID [] [] w of
             Pending \<Rightarrow> Pending
           | Crash m \<Rightarrow> Crash m
           | Ret (files, w1) \<Rightarrow> Ret (Inr files, w1)))"

subsection \<open>GetFileByNameAndParent\<close>

text \<open>The scan, \<^verbatim>\<open>for _, f := range r.Items { if name == f.Title { return f, nil } }\<close>;
  \<open>None\<close> when the loop runs to its end.\<close>

fun firstTitled :: "string \<Rightarrow> File list \<Rightarrow> File option" where
  "firstTitled name [] = None"
| "firstTitled name (f # rest) = (if name = Title f then Some f else firstTitled name rest)"

text \<open>
  \<^verbatim>\<open>
  client, err := d.getClient()
  if nil != err { return nil, err }
  r, err := client.Files.List().Q(fmt.Sprintf(
      "'%v' in parents AND name = '%v' AND trashed = false", parent, name)).Do()
  if nil != err { return nil, err }
  for _, f := range r.Items { ... }
  return nil, fmt.Errorf("Could not find %s in directory %v", name, parent)
  \<close>
\<close>

definition GetFileByNameAndParent ::
  "lib \<Rightarrow> Drive \<Rightarrow> string \<Rightarrow> string \<Rightarrow> world \<Rightarrow> ((error + File) \<times> world) run" where
  "GetFileByNameAndParent L d name parent w =
     (case getClient L d of
        Pending \<Rightarrow> Pending
      | Crash m \<Rightarrow> Crash m
      | Ret (Inl err) \<Rightarrow> Ret (Inl err, w)
      | Ret (Inr svc) \<Rightarrow>
          (case Files_List_Do svc
                  (quote @ parent @ quote @ '' in parents AND name = '' @ quote @ name @ quote
                     @ '' AND trashed = false'')
                  None w of
             Pending \<Rightarrow> Pending
           | Crash m \<Rightarrow> Crash m
           | Ret (Inl err, w1) \<Rightarrow> Ret (Inl err, w1)
           | Ret (Inr r, w1) \<Rightarrow>
               (case firstTitled name (Items r) of
                  Some f \<Rightarrow> Ret (Inr f, w1)
                | None \<Rightarrow>
                    Ret (Inl (Error (''Could not find '' @ name @ '' in directory '' @ parent)),
                         w1))))"

subsection \<open>The token file\<close>

text \<open>
  \<^verbatim>\<open>
  var tokens []oauth2.Token
  tokenFile, err := ioutil.ReadFile(tokenPath)
  if nil != err { return tokens }
  json.Unmarshal(tokenFile, &tokens)
  return tokens
  \<close>
\<close>

definition getTokens :: "lib \<Rightarrow> string \<Rightarrow> world \<Rightarrow> Token list" where
  "getTokens L tokenPath w =
     (case ioutil_ReadFile tokenPath w of
        Inl err \<Rightarrow> []
      | Inr tokenFile \<Rightarrow> json_Unmarshal L tokenFile)"

text \<open>
  \<^verbatim>\<open>
  j, err := json.Marshal(tokens)
  if nil != err { return fmt.Errorf("Could not store tokens, %v", err) }
  ioutil.WriteFile(tokenPath, j, 0644)
  return nil
  \<close>
  The result of \<^verbatim>\<open>ioutil.WriteFile\<close> is dropped.
\<close>

definition storeTokens :: "lib \<Rightarrow> string \<Rightarrow> Token list \<Rightarrow> world \<Rightarrow> error option \<times> world" where
  "storeTokens L tokenPath toks w =
     (case json_Marshal L toks of
        Inl err \<Rightarrow> (Some (Error (''Could not store tokens, '' @ message err)), w)
      | Inr j \<Rightarrow>
          (case ioutil_WriteFile tokenPath j w of
             (ignored, w1) \<Rightarrow> (None, w1)))"

subsection \<open>authorize\<close>

text \<open>
  \<^verbatim>\<open>
  authURL := config.AuthCodeURL("state-token", oauth2.AccessTypeOffline)
  fmt.Printf("Go to the following link in your browser %v\n", authURL)
  fmt.Printf("Paste the authorization code: ")
  var code string
  if _, err := fmt.Scan(&code); err != nil { log.Fatalf("Unable to read authorization code %v", err) }
  tok, err := config.Exchange(oauth2.NoContext, code)
  if err != nil { log.Fatalf("Unable to retrieve token from web %v", err) }
  return tok
  \<close>
  \<^verbatim>\<open>log.Fatalf\<close> ends the process.
\<close>

definition getTokenFromWeb :: "lib \<Rightarrow> Config \<Rightarrow> world \<Rightarrow> (Token \<times> world) run" where
  "getTokenFromWeb L config w =
     (let authURL = AuthCodeURL L config;
          w1 = fmt_Printf (''Go to the following link in your browser '' @ authURL @ [CHR 0x0A]) w;
          w2 = fmt_Printf ''Paste the authorization code: '' w1
      in case fmt_Scan w2 of
           (Inl err, w3) \<Rightarrow> Crash (''Unable to read authorization code '' @ message err)
         | (Inr code, w3) \<Rightarrow>
             (case Exchange config code w3 of
                Pending \<Rightarrow> Pending
              | Crash m \<Rightarrow> Crash m
              | Ret (Inl err, w4) \<Rightarrow> Crash (''Unable to retrieve token from web '' @ message err)
              | Ret (Inr tok, w4) \<Rightarrow> Ret (tok, w4)))"

text \<open>The configuration literal, the same in both branches of \<^verbatim>\<open>authorize\<close>;
  \<^verbatim>\<open>gdrive.DriveScope\<close> is the library's constant.\<close>

definition DriveScope :: string where
  "DriveScope = ''https://www.googleapis.com/auth/drive''"

definition newConfig :: "Account \<Rightarrow> Config" where
  "newConfig account =
     \<lparr>ClientID_cfg = ClientID account,
      ClientSecret_cfg = ClientSecret account,
      Endpoint = \<lparr>AuthURL = ''https://accounts.google.com/o/oauth2/auth'',
                  TokenURL = ''https://accounts.google.com/o/oauth2/token''\<rparr>,
      RedirectURL = ''urn:ietf:wg:oauth:2.0:oob'',
      Scopes = [DriveScope]\<rparr>"

text \<open>
  The loop of the first branch:
  \<^verbatim>\<open>
  for _, account := range d.accounts {
      config := oauth2.Config{...}
      token := getTokenFromWeb(&config)
      d.configs = append(d.configs, config)
      d.tokens = append(d.tokens, *token)
  }
  \<close>
\<close>

fun exchangeAll :: "lib \<Rightarrow> Account list \<Rightarrow> Drive \<Rightarrow> world \<Rightarrow> (Drive \<times> world) run" where
  "exchangeAll L [] d w = Ret (d, w)"
| "exchangeAll L (account # rest) d w =
     (let config = newConfig account
      in case getTokenFromWeb L config w of
           Pending \<Rightarrow> Pending
         | Crash m \<Rightarrow> Crash m
         | Ret (token, w1) \<Rightarrow>
             exchangeAll L rest (d\<lparr>configs := configs d @ [config],
                                    tokens := tokens d @ [token]\<rparr>) w1)"

text \<open>
  The loop of the second branch:
  \<^verbatim>\<open>
  for _, account := range d.accounts {
      config := oauth2.Config{...}
      d.configs = append(d.configs, config)
  }
  \<close>
\<close>

fun buildConfigs :: "Account list \<Rightarrow> Drive \<Rightarrow> Drive" where
  "buildConfigs [] d = d"
| "buildConfigs (account # rest) d =
     (let config = newConfig account
      in buildConfigs rest (d\<lparr>configs := configs d @ [config]\<rparr>))"

text \<open>
  \<^verbatim>\<open>
  d.tokens = getTokens(tokenPath)
  if len(d.tokens) < len(d.accounts) {
      for ... { ... }
      if err := storeTokens(tokenPath, d.tokens); nil != err { return err }
  } else {
      for ... { ... }
  }
  return nil
  \<close>
  The receiver is a pointer: the drive as the call leaves it is returned with the
  error.
\<close>

definition authorize :: "lib \<Rightarrow> string \<Rightarrow> Drive \<Rightarrow> world \<Rightarrow> (error option \<times> Drive \<times> world) run" where
  "authorize L tokenPath d w =
     (let d1 = d\<lparr>tokens := getTokens L tokenPath w\<rparr>
      in if length (tokens d1) < length (accounts d1)
         then
           (case exchangeAll L (accounts d1) d1 w of
              Pending \<Rightarrow> Pending
            | Crash m \<Rightarrow> Crash m
            | Ret (d2, w1) \<Rightarrow>
                (case storeTokens L tokenPath (tokens d2) w1 of
                   (Some err, w2) \<Rightarrow> Ret (Some err, d2, w2)
                 | (None, w2) \<Rightarrow> Ret (None, d2, w2)))
         else Ret (None, buildConfigs (accounts d1) d1, w))"

text \<open>
  \<^verbatim>\<open>
  drive := Drive{activeAccountID: 1, context: context.Background(), accounts: accounts,
      maxDelay: 5000, chunkDir: chunkDir}
  if err := drive.authorize(tokenPath); nil != err { return nil, err }
  go drive.startAutoRefresh()
  return &drive, nil
  \<close>
  The poller that the \<^verbatim>\<open>go\<close> statement starts is \<open>startAutoRefresh\<close> below, run on the
  drive returned here.
\<close>

definition NewDriveClient ::
  "lib \<Rightarrow> Account list \<Rightarrow> string \<Rightarrow> string \<Rightarrow> world \<Rightarrow> ((error + Drive) \<times> world) run" where
  "NewDriveClient L accs tokenPath dir w =
     (let drive = \<lparr>activeAccountID = 1, accounts = accs, tokens = [], configs = [],
                    maxDelay = 5000, chunkDir = dir\<rparr>
      in case authorize L tokenPath drive w of
           Pending \<Rightarrow> Pending
         | Crash m \<Rightarrow> Crash m
         | Ret (Some err, d1, w1) \<Rightarrow> Ret (Inl err, w1)
         | Ret (None, d1, w1) \<Rightarrow> Ret (Inr d1, w1))"

subsection \<open>startAutoRefresh\<close>

text \<open>
  The innermost loop:
  \<^verbatim>\<open>
  for _, file := range r.Items {
      object := mapDriveToAPIObject(file)
      log.Printf(...)
      if err := d.Cache.Store(object); nil != err { log.Printf(...) }
  }
  \<close>
\<close>

fun storeItems :: "lib \<Rightarrow> File list \<Rightarrow> world \<Rightarrow> world" where
  "storeItems L [] w = w"
| "storeItems L (file # rest) w =
     (let (object, w1) = mapDriveToAPIObject L file w;
          (err, w2) = Cache_Store object w1
      in storeItems L rest w2)"

text \<open>
  The paging loop of one tick:
  \<^verbatim>\<open>
  for {
      query := client.Files.List().Q(fmt.Sprintf("modifiedTime > '%v'", checkDate))
      if "" != pageToken { query = query.PageToken(pageToken) }
      r, err := query.Do()
      if nil != err { break }
      for _, file := range r.Items { ... }
      pageToken = r.NextPageToken
      if "" == pageToken { break }
  }
  \<close>
\<close>

lemma Cache_Store_remote:
  "list_script (snd (Cache_Store object w)) = list_script w
   \<and> requests (snd (Cache_Store object w)) = requests w"
  by (simp add: Cache_Store_def split: option.split)

lemma storeItems_remote:
  "list_script (storeItems L items w) = list_script w
   \<and> requests (storeItems L items w) = requests w"
proof (induction items arbitrary: w)
  case Nil
  then show ?case by simp
next
  case (Cons f rest)
  obtain object w1 where m: "mapDriveToAPIObject L f w = (object, w1)"
    by (cases "mapDriveToAPIObject L f w")
  obtain err w2 where c: "Cache_Store object w1 = (err, w2)"
    by (cases "Cache_Store object w1")
  have "list_script w2 = list_script w \<and> requests w2 = requests w"
    using mapDriveToAPIObject_remote [of L f w] Cache_Store_remote [of object w1] m c by simp
  then show ?case using Cons [of w2] m c by simp
qed

function refreshPages :: "lib \<Rightarrow> Service \<Rightarrow> string \<Rightarrow> string \<Rightarrow> world \<Rightarrow> world run" where
  "refreshPages L svc checkDate pageToken w =
     (case Files_List_Do svc
             (''modifiedTime > '' @ quote @ checkDate @ quote)
             (if [] \<noteq> pageToken then Some pageToken else None) w of
        Pending \<Rightarrow> Pending
      | Crash m \<Rightarrow> Crash m
      | Ret (Inl err, w1) \<Rightarrow> Ret w1
      | Ret (Inr r, w1) \<Rightarrow>
          (let w2 = storeItems L (Items r) w1
           in if [] = NextPageToken r then Ret w2
              else refreshPages L svc checkDate (NextPageToken r) w2))"
  by pat_completeness auto
termination
proof (relation "measure (\<lambda>(L, svc, checkDate, pageToken, w). length (list_script w))")
  show "wf (measure (\<lambda>(L, svc, checkDate, pageToken, w). length (list_script w)))"
    by simp
next
  fix L svc checkDate pageToken w x3 x y x2 w2
  assume call: "Files_List_Do svc (''modifiedTime > '' @ quote @ checkDate @ quote)
                  (if [] \<noteq> pageToken then Some pageToken else None) w = Ret x3"
    and x3: "(x, y) = x3" and x: "x = Inr x2"
    and w2: "w2 = storeItems L (Items x2) y"
  from call x3 have "length (list_script y) < length (list_script w)"
    by (metis Files_List_Do_shorter)
  moreover have "list_script w2 = list_script y"
    using storeItems_remote [of L "Items x2" y] w2 by simp
  ultimately show "((L, svc, checkDate, NextPageToken x2, w2),
                    (L, svc, checkDate, pageToken, w))
                   \<in> measure (\<lambda>(L, svc, checkDate, pageToken, w). length (list_script w))"
    by simp
qed

declare refreshPages.simps [simp del]

text \<open>
  One turn of \<^verbatim>\<open>for _ = range time.Tick(10 * time.Minute)\<close>, from the checkpoint
  \<open>lastCheck\<close>; it returns the new checkpoint:
  \<^verbatim>\<open>
  checkDate := lastCheck.Format(time.RFC3339)
  lastCheck = time.Now()
  pageToken := ""
  for { ... }
  \<close>
\<close>

definition tick :: "lib \<Rightarrow> Service \<Rightarrow> time \<Rightarrow> world \<Rightarrow> (time \<times> world) run" where
  "tick L svc lastCheck w =
     (let checkDate = time_Format L lastCheck;
          (lastCheck', w1) = time_Now w
      in case refreshPages L svc checkDate [] w1 of
           Pending \<Rightarrow> Pending
         | Crash m \<Rightarrow> Crash m
         | Ret w2 \<Rightarrow> Ret (lastCheck', w2))"

text \<open>The first \<open>n\<close> turns of the ticker loop, which has no exit of its own.\<close>

fun ticks :: "nat \<Rightarrow> lib \<Rightarrow> Service \<Rightarrow> time \<Rightarrow> world \<Rightarrow> (time \<times> world) run" where
  "ticks 0 L svc lastCheck w = Ret (lastCheck, w)"
| "ticks (Suc n) L svc lastCheck w =
     (case tick L svc lastCheck w of
        Pending \<Rightarrow> Pending
      | Crash m \<Rightarrow> Crash m
      | Ret (lastCheck', w1) \<Rightarrow> ticks n L svc lastCheck' w1)"

text \<open>
  \<^verbatim>\<open>
  client, err := d.getClient()
  if nil != err { log.Printf(...); return }
  lastCheck := time.Now()
  for _ = range time.Tick(10 * time.Minute) { ... }
  \<close>
  The poller over the first \<open>n\<close> ticks. \<open>Inl\<close>: it returned at once, with no client.
\<close>

definition startAutoRefresh :: "lib \<Rightarrow> Drive \<Rightarrow> nat \<Rightarrow> world \<Rightarrow> ((error + time) \<times> world) run" where
  "startAutoRefresh L d n w =
     (case getClient L d of
        Pending \<Rightarrow> Pending
      | Crash m \<Rightarrow> Crash m
      | Ret (Inl err) \<Rightarrow> Ret (Inl err, w)
      | Ret (Inr svc) \<Rightarrow>
          (let (lastCheck, w1) = time_Now w
           in case ticks n L svc lastCheck w1 of
                Pending \<Rightarrow> Pending
              | Crash m \<Rightarrow> Crash m
              | Ret (lastCheck', w2) \<Rightarrow> Ret (Inr lastCheck', w2)))"

section \<open>Notions used in the statements\<close>

text \<open>The requests of a paginated listing that received the pages \<open>pages\<close>, each with a
  continuation token: the first request carries \<open>first\<close>, and one request follows each
  page, carrying that page's token.\<close>

definition pageRequests :: "Service \<Rightarrow> string \<Rightarrow> string option \<Rightarrow> FileList list \<Rightarrow> request list" where
  "pageRequests svc q first pages =
     ListRequest svc q first # map (\<lambda>p. ListRequest svc q (Some (NextPageToken p))) pages"

text \<open>The cache after \<^verbatim>\<open>Cache.Store\<close> was called on each of \<open>objects\<close> in turn: every
  object the cache accepts is stored under its identifier, a later one replacing an
  earlier one of the same identifier.\<close>

definition upsertAll ::
  "(APIObject \<Rightarrow> error option) \<Rightarrow> (string \<rightharpoonup> APIObject) \<Rightarrow> APIObject list \<Rightarrow> (string \<rightharpoonup> APIObject)" where
  "upsertAll fails c objects =
     foldl (\<lambda>c object. if fails object = None then c(ID object \<mapsto> object) else c) c objects"

text \<open>What the consent exchanges for the accounts \<open>accs\<close> print, and the exchange
  requests they issue with the codes \<open>codes\<close>: one per account, in account order.\<close>

definition consentPrompts :: "lib \<Rightarrow> Account list \<Rightarrow> string list" where
  "consentPrompts L accs =
     concat (map (\<lambda>a. [''Go to the following link in your browser ''
                           @ AuthCodeURL L (newConfig a) @ [CHR 0x0A],
                         ''Paste the authorization code: '']) accs)"

definition exchangeRequests :: "Account list \<Rightarrow> string list \<Rightarrow> request list" where
  "exchangeRequests accs codes =
     map (\<lambda>(a, code). ExchangeRequest (newConfig a) code) (zip accs codes)"

section \<open>Concrete inputs\<close>

text \<open>The inputs at which the theorems below are instantiated.\<close>

definition world0 :: world where
  "world0 = \<lparr>list_script = [], get_script = [], download_script = [], exchange_script = [],
              requests = [], clock = (\<lambda>n. 1000 + int n), clock_reads = 0,
              stdin = [], stdout = [], disk = Map.empty, write_error = (\<lambda>p. None),
              write_calls = [], cache = Map.empty, store_error = (\<lambda>x. None),
              store_calls = []\<rparr>"

definition account1 :: Account where
  "account1 = \<lparr>ClientID = ''id1'', ClientSecret = ''secret1''\<rparr>"

definition account2 :: Account where
  "account2 = \<lparr>ClientID = ''id2'', ClientSecret = ''secret2''\<rparr>"

definition account3 :: Account where
  "account3 = \<lparr>ClientID = ''id3'', ClientSecret = ''secret3''\<rparr>"

definition token1 :: Token where
  "token1 = \<lparr>AccessToken = ''a1'', TokenType = ''Bearer'', RefreshToken = ''r1'', Expiry = 10\<rparr>"

definition token2 :: Token where
  "token2 = \<lparr>AccessToken = ''a2'', TokenType = ''Bearer'', RefreshToken = ''r2'', Expiry = 20\<rparr>"

definition token3 :: Token where
  "token3 = \<lparr>AccessToken = ''a3'', TokenType = ''Bearer'', RefreshToken = ''r3'', Expiry = 30\<rparr>"

definition lib0 :: lib where
  "lib0 = \<lparr>gdrive_New = (\<lambda>c. Inr \<lparr>client = c\<rparr>),
            time_Parse = (\<lambda>s. if s = ''2020-01-01T00:00:00Z'' then Inr 1577836800
                                else Inl (Error ''cannot parse'')),
            time_Format = (\<lambda>t. ''t'' @ show_int t),
            json_Marshal = (\<lambda>ts. Inr (concat (map (\<lambda>t. AccessToken t @ '';'') ts))),
            json_Unmarshal = (\<lambda>s. if s = ''a1;a2;'' then [token1, token2]
                                    else if s = ''a3;'' then [token3] else []),
            AuthCodeURL = (\<lambda>c. ''https://accounts.google.com/o/oauth2/auth?client_id=''
                                  @ ClientID_cfg c)\<rparr>"

definition drive3 :: Drive where
  "drive3 = \<lparr>activeAccountID = 3, accounts = [account1, account2, account3],
              tokens = [token1, token2, token3],
              configs = [newConfig account1, newConfig account2, newConfig account3],
              maxDelay = 5000, chunkDir = ''/tmp/chunks''\<rparr>"

definition svc3 :: Service where
  "svc3 = \<lparr>client = \<lparr>client_config = newConfig account3, client_token = token3\<rparr>\<rparr>"

definition world_dl :: "int \<Rightarrow> world" where
  "world_dl code = world0\<lparr>download_script := [Inr \<lparr>StatusCode = code, ContentLength = 1234\<rparr>]\<rparr>"

definition world_ro :: world where
  "world_ro = world0\<lparr>write_error := (\<lambda>p. Some (Error (''open '' @ p @ '': permission denied'')))\<rparr>"

definition file_a :: File where
  "file_a = \<lparr>Id_file = ''1'', Title = ''a.txt'', MimeType = ''text/plain'', FileSize_file = 42,
              ModifiedDate = ''2020-01-01T00:00:00Z'',
              Parents_file = [\<lparr>Id_parent = ''root''\<rparr>], DownloadUrl = ''https://dl/1''\<rparr>"

definition file_b :: File where
  "file_b = \<lparr>Id_file = ''2'', Title = ''b.txt'', MimeType = ''text/plain'', FileSize_file = 0,
              ModifiedDate = ''yesterday'',
              Parents_file = [\<lparr>Id_parent = ''root''\<rparr>, \<lparr>Id_parent = ''other''\<rparr>],
              DownloadUrl = ''https://dl/2''\<rparr>"

definition file_b2 :: File where
  "file_b2 = \<lparr>Id_file = ''3'', Title = ''b.txt'', MimeType = ''application/vnd.google-apps.folder'',
               FileSize_file = 0, ModifiedDate = ''2020-01-01T00:00:00Z'',
               Parents_file = [], DownloadUrl = []\<rparr>"

definition world_names :: world where
  "world_names = world0\<lparr>list_script := [Inr \<lparr>Items = [file_a, file_b, file_b2], NextPageToken = []\<rparr>]\<rparr>"

definition world_get :: "File \<Rightarrow> world" where
  "world_get f = world0\<lparr>get_script := [Inr f], download_script := [Inl (Error ''timeout'')]\<rparr>"

definition page1 :: FileList where
  "page1 = \<lparr>Items = [file_a, file_b], NextPageToken = ''t1''\<rparr>"

definition page2 :: FileList where
  "page2 = \<lparr>Items = [file_b2], NextPageToken = ''t2''\<rparr>"

definition page3 :: FileList where
  "page3 = \<lparr>Items = [file_a], NextPageToken = []\<rparr>"

definition object_a :: APIObject where
  "object_a = \<lparr>ID = ''1'', Parents = [''root''], Name = ''a.txt'', IsDir = False, Size = 42,
                MTime = 1577836800, DownloadURL = ''https://dl/1''\<rparr>"

definition object_b :: "time \<Rightarrow> APIObject" where
  "object_b t = \<lparr>ID = ''2'', Parents = [''root'', ''other''], Name = ''b.txt'', IsDir = False,
                  Size = 0, MTime = t, DownloadURL = ''https://dl/2''\<rparr>"

definition object_b2 :: APIObject where
  "object_b2 = \<lparr>ID = ''3'', Parents = [], Name = ''b.txt'', IsDir = True, Size = 0,
                 MTime = 1577836800, DownloadURL = []\<rparr>"

definition world_pages :: world where
  "world_pages = world0\<lparr>list_script := [Inr page1, Inr page2, Inl (Error ''503''), Inr page3]\<rparr>"

definition world_poll :: world where
  "world_poll = world0\<lparr>list_script := [Inr page1, Inl (Error ''503''), Inr page3]\<rparr>"

definition world_polled :: world where
  "world_polled =
     world0\<lparr>clock_reads := 2,
            list_script := [Inr page3],
            requests := [ListRequest svc3 (''modifiedTime > '' @ quote @ ''t500'' @ quote) None,
                         ListRequest svc3 (''modifiedTime > '' @ quote @ ''t500'' @ quote) (Some ''t1'')],
            cache := [''1'' \<mapsto> object_a, ''2'' \<mapsto> object_b 1001],
            store_calls := [object_a, object_b 1001]\<rparr>"

definition drive_new :: Drive where
  "drive_new = \<lparr>activeAccountID = 1, accounts = [account1, account2], tokens = [],
                 configs = [], maxDelay = 5000, chunkDir = ''/tmp/chunks''\<rparr>"

definition world_consent :: world where
  "world_consent = world0\<lparr>stdin := [Inr ''c1'', Inr ''c2''],
                           exchange_script := [Inr token1, Inr token2]\<rparr>"

definition world_stored :: world where
  "world_stored = world0\<lparr>disk := [''token.json'' \<mapsto> ''a1;a2;'']\<rparr>"

definition world_stale :: world where
  "world_stale = world_consent\<lparr>disk := [''token.json'' \<mapsto> ''a3;'']\<rparr>"







section \<open>Account rotation\<close>

lemma rotateAccounts_configs: "configs (rotateAccounts d) = configs d"
  by (simp add: rotateAccounts_def)

lemma rotateAccounts_pow_configs: "configs ((rotateAccounts ^^ k) d) = configs d"
  by (induction k) (simp_all add: rotateAccounts_configs)

lemma rotateAccounts_step:
  assumes "1 \<le> activeAccountID d" and "activeAccountID d \<le> int (length (configs d))"
  shows "activeAccountID (rotateAccounts d)
           = activeAccountID d mod int (length (configs d)) + 1"
proof (cases "activeAccountID d = int (length (configs d))")
  case True
  then show ?thesis by (simp add: rotateAccounts_def)
next
  case False
  with assms have lt: "activeAccountID d < int (length (configs d))" by simp
  with assms(1) have "activeAccountID d mod int (length (configs d)) = activeAccountID d"
    by simp
  with lt show ?thesis by (simp add: rotateAccounts_def)
qed

lemma rotateAccounts_range:
  assumes "1 \<le> activeAccountID d" and "activeAccountID d \<le> int (length (configs d))"
  shows "1 \<le> activeAccountID (rotateAccounts d)
       \<and> activeAccountID (rotateAccounts d) \<le> int (length (configs (rotateAccounts d)))"
  using assms by (simp add: rotateAccounts_def)

lemma rotateAccounts_pow:
  assumes "1 \<le> activeAccountID d" and "activeAccountID d \<le> int (length (configs d))"
  shows "activeAccountID ((rotateAccounts ^^ k) d)
           = (activeAccountID d - 1 + int k) mod int (length (configs d)) + 1"
proof (induction k)
  case 0
  from assms have "(activeAccountID d - 1) mod int (length (configs d)) = activeAccountID d - 1"
    by simp
  then show ?case by simp
next
  case (Suc k)
  let ?n = "int (length (configs d))"
  let ?e = "(rotateAccounts ^^ k) d"
  from assms have n: "0 < ?n" by linarith
  have cf: "configs ?e = configs d" by (rule rotateAccounts_pow_configs)
  have lo: "1 \<le> activeAccountID ?e" using Suc n by simp
  have "(activeAccountID d - 1 + int k) mod ?n < ?n"
    using n by (rule pos_mod_bound)
  then have hi: "activeAccountID ?e \<le> int (length (configs ?e))"
    unfolding cf Suc by linarith
  have "activeAccountID (rotateAccounts ?e) = activeAccountID ?e mod ?n + 1"
    using rotateAccounts_step [OF lo hi] cf by simp
  also have "\<dots> = ((activeAccountID d - 1 + int k) mod ?n + 1) mod ?n + 1"
    using Suc by simp
  also have "\<dots> = (activeAccountID d - 1 + int (Suc k)) mod ?n + 1"
    by (simp add: mod_add_left_eq add.assoc)
  finally show ?case by simp
qed

text \<open>
  C2. For a pool of \<open>N \<ge> 1\<close> configurations and an active index \<open>i\<close> with
  \<open>1 \<le> i \<le> N\<close>: one rotation sets the index to \<open>(i mod N) + 1\<close>; the index stays
  within \<open>1..N\<close> after any number of rotations; and \<open>k\<close> rotations lead to
  \<open>((i - 1 + k) mod N) + 1\<close>, that is, the index runs through
  \<open>i, i+1, \<dots>, N, 1, 2, \<dots>\<close> cyclically from any start in range.
\<close>

theorem rotateAccounts_cycles:
  assumes "1 \<le> activeAccountID d" and "activeAccountID d \<le> int (length (configs d))"
  shows "activeAccountID (rotateAccounts d)
           = activeAccountID d mod int (length (configs d)) + 1
       \<and> 1 \<le> activeAccountID ((rotateAccounts ^^ k) d)
       \<and> activeAccountID ((rotateAccounts ^^ k) d)
           \<le> int (length (configs ((rotateAccounts ^^ k) d)))
       \<and> activeAccountID ((rotateAccounts ^^ k) d)
           = (activeAccountID d - 1 + int k) mod int (length (configs d)) + 1"
proof -
  let ?n = "int (length (configs d))"
  from assms have n: "0 < ?n" by linarith
  have one: "activeAccountID (rotateAccounts d) = activeAccountID d mod ?n + 1"
    using assms by (rule rotateAccounts_step)
  have eq: "activeAccountID ((rotateAccounts ^^ k) d)
           = (activeAccountID d - 1 + int k) mod ?n + 1"
    using assms by (rule rotateAccounts_pow)
  have lo: "1 \<le> activeAccountID ((rotateAccounts ^^ k) d)"
    using eq n by simp
  have "(activeAccountID d - 1 + int k) mod ?n < ?n"
    using n by (rule pos_mod_bound)
  then have hi: "activeAccountID ((rotateAccounts ^^ k) d)
           \<le> int (length (configs ((rotateAccounts ^^ k) d)))"
    unfolding rotateAccounts_pow_configs eq by linarith
  from one lo hi eq show ?thesis by blast
qed

theorem rotateAccounts_cycles_witness:
  "1 \<le> activeAccountID drive3
   \<and> activeAccountID drive3 \<le> int (length (configs drive3))
   \<and> activeAccountID (rotateAccounts drive3) = 1
   \<and> activeAccountID ((rotateAccounts ^^ 5) drive3) = 2
   \<and> 1 \<le> activeAccountID ((rotateAccounts ^^ 5) drive3)
   \<and> activeAccountID ((rotateAccounts ^^ 5) drive3)
       \<le> int (length (configs ((rotateAccounts ^^ 5) drive3)))"
proof -
  have lo: "1 \<le> activeAccountID drive3" by (simp add: drive3_def)
  have hi: "activeAccountID drive3 \<le> int (length (configs drive3))" by (simp add: drive3_def)
  have a: "activeAccountID drive3 = 3" by (simp add: drive3_def)
  have n: "int (length (configs drive3)) = 3" by (simp add: drive3_def)
  from rotateAccounts_cycles [OF lo hi, of 5] lo hi show ?thesis
    unfolding a n by simp
qed

section \<open>FileSize\<close>

lemma show_nat_digit: "n < 10 \<Longrightarrow> show_nat n = [digit n]"
  by (simp add: show_nat.simps)

lemma show_nat_step: "10 \<le> n \<Longrightarrow> show_nat n = show_nat (n div 10) @ [digit (n mod 10)]"
  by (subst show_nat.simps) simp

lemma show_int_404: "show_int 404 = ''404''"
  by (simp add: show_int_def show_nat_step show_nat_digit digit_def)

lemma getClient_drive3: "getClient lib0 drive3 = Ret (Inr svc3)"
  by (simp add: getClient_def lib0_def drive3_def svc3_def)

text \<open>
  C7. When a client is obtained and the download request succeeds with response
  \<open>resp\<close>, \<open>FileSize\<close> returns the content length of \<open>resp\<close> and no error if the status
  code is 200, and otherwise the size 0 and the error \<open>Invalid status code <code>\<close>.
\<close>

theorem FileSize_status:
  assumes "getClient L d = Ret (Inr svc)"
    and "download_script w = Inr resp # rest"
  shows "FileSize L d ident w =
           Ret ((if StatusCode resp = 200 then (ContentLength resp, None)
                 else (0, Some (Error (''Invalid status code '' @ show_int (StatusCode resp))))),
                w\<lparr>download_script := rest,
                   requests := requests w @ [DownloadRequest svc ident]\<rparr>)"
  using assms by (simp add: FileSize_def Files_Get_Download_def)

theorem FileSize_status_witness:
  "getClient lib0 drive3 = Ret (Inr svc3)
   \<and> download_script (world_dl 404) = [Inr \<lparr>StatusCode = 404, ContentLength = 1234\<rparr>]
   \<and> FileSize lib0 drive3 ''f1'' (world_dl 404)
       = Ret ((0, Some (Error ''Invalid status code 404'')),
              world_dl 404\<lparr>download_script := [], requests := [DownloadRequest svc3 ''f1'']\<rparr>)
   \<and> download_script (world_dl 200) = [Inr \<lparr>StatusCode = 200, ContentLength = 1234\<rparr>]
   \<and> FileSize lib0 drive3 ''f1'' (world_dl 200)
       = Ret ((1234, None),
              world_dl 200\<lparr>download_script := [], requests := [DownloadRequest svc3 ''f1'']\<rparr>)"
proof -
  have a: "download_script (world_dl 404) = [Inr \<lparr>StatusCode = 404, ContentLength = 1234\<rparr>]"
    by (simp add: world_dl_def)
  have b: "download_script (world_dl 200) = [Inr \<lparr>StatusCode = 200, ContentLength = 1234\<rparr>]"
    by (simp add: world_dl_def)
  have r: "requests (world_dl 404) = []" "requests (world_dl 200) = []"
    by (simp_all add: world_dl_def world0_def)
  show ?thesis
    using FileSize_status [OF getClient_drive3 a, of "''f1''"]
      FileSize_status [OF getClient_drive3 b, of "''f1''"] getClient_drive3 a b
    by (simp add: r show_int_404)
qed

section \<open>mapDriveToAPIObject\<close>

text \<open>
  C9. When the modification date of a raw file does not parse, the mapper still
  returns an object: its modification time is the reading of the clock taken then,
  and every other field is the one the mapper gives for a date \<open>s\<close> that parses.
\<close>

theorem mapDriveToAPIObject_unparsable:
  assumes "time_Parse L (ModifiedDate file) = Inl err"
  shows "mapDriveToAPIObject L file w =
           (\<lparr>ID = Id_file file,
             Parents = map Id_parent (Parents_file file),
             Name = Title file,
             IsDir = (MimeType file = ''application/vnd.google-apps.folder''),
             Size = FileSize_file file,
             MTime = fst (time_Now w),
             DownloadURL = DownloadUrl file\<rparr>, snd (time_Now w))
       \<and> fst (time_Now w) = clock w (clock_reads w)
       \<and> (time_Parse L s = Inr t \<longrightarrow>
            fst (mapDriveToAPIObject L (file\<lparr>ModifiedDate := s\<rparr>) w)
              = (fst (mapDriveToAPIObject L file w))\<lparr>MTime := t\<rparr>)"
  using assms by (simp add: mapDriveToAPIObject_def time_Now_def)

theorem mapDriveToAPIObject_unparsable_witness:
  "time_Parse lib0 (ModifiedDate file_b) = Inl (Error ''cannot parse'')
   \<and> mapDriveToAPIObject lib0 file_b world0 =
       (\<lparr>ID = ''2'', Parents = [''root'', ''other''], Name = ''b.txt'', IsDir = False, Size = 0,
         MTime = 1000, DownloadURL = ''https://dl/2''\<rparr>, world0\<lparr>clock_reads := 1\<rparr>)
   \<and> time_Parse lib0 ''2020-01-01T00:00:00Z'' = Inr 1577836800
   \<and> fst (mapDriveToAPIObject lib0 (file_b\<lparr>ModifiedDate := ''2020-01-01T00:00:00Z''\<rparr>) world0)
       = (fst (mapDriveToAPIObject lib0 file_b world0))\<lparr>MTime := 1577836800\<rparr>"
proof -
  have p: "time_Parse lib0 (ModifiedDate file_b) = Inl (Error ''cannot parse'')"
    by (simp add: lib0_def file_b_def)
  have q: "time_Parse lib0 ''2020-01-01T00:00:00Z'' = Inr 1577836800"
    by (simp add: lib0_def)
  have n: "time_Now world0 = (1000, world0\<lparr>clock_reads := 1\<rparr>)"
    by (simp add: time_Now_def world0_def)
  from mapDriveToAPIObject_unparsable
    [OF p, of world0 "''2020-01-01T00:00:00Z''" 1577836800] p q
  show ?thesis by (simp add: n file_b_def)
qed

section \<open>GetFileByNameAndParent\<close>

lemma firstTitled_first:
  "\<forall>g \<in> set pre. Title g \<noteq> name \<Longrightarrow> Title f = name \<Longrightarrow>
   firstTitled name (pre @ f # post) = Some f"
  by (induction pre) auto

lemma firstTitled_none:
  "\<forall>g \<in> set items. Title g \<noteq> name \<Longrightarrow> firstTitled name items = None"
  by (induction items) auto

text \<open>
  C6. When a client is obtained and the query succeeds with the list \<open>r\<close>,
  \<open>GetFileByNameAndParent\<close> returns the first item of \<open>r\<close> whose title equals the name
  (every item before it has another title); when no item has that title it returns
  the error \<open>Could not find <name> in directory <parent>\<close>.
\<close>

theorem GetFileByNameAndParent_scan:
  assumes "getClient L d = Ret (Inr svc)"
    and "list_script w = Inr r # rest"
    and "w' = w\<lparr>list_script := rest,
                 requests := requests w @
                   [ListRequest svc
                      (quote @ parent @ quote @ '' in parents AND name = '' @ quote @ name
                         @ quote @ '' AND trashed = false'') None]\<rparr>"
  shows "(Items r = pre @ f # post \<and> (\<forall>g \<in> set pre. Title g \<noteq> name) \<and> Title f = name
            \<longrightarrow> GetFileByNameAndParent L d name parent w = Ret (Inr f, w'))
       \<and> ((\<forall>g \<in> set (Items r). Title g \<noteq> name)
            \<longrightarrow> GetFileByNameAndParent L d name parent w
                  = Ret (Inl (Error (''Could not find '' @ name @ '' in directory '' @ parent)),
                         w'))"
  using assms
  by (simp add: GetFileByNameAndParent_def Files_List_Do_def firstTitled_first firstTitled_none)

theorem GetFileByNameAndParent_scan_witness:
  "getClient lib0 drive3 = Ret (Inr svc3)
   \<and> Title file_a \<noteq> ''b.txt'' \<and> Title file_b = ''b.txt''
   \<and> GetFileByNameAndParent lib0 drive3 ''b.txt'' ''root'' world_names
       = Ret (Inr file_b,
              world0\<lparr>requests :=
                [ListRequest svc3
                   (quote @ ''root'' @ quote @ '' in parents AND name = '' @ quote @ ''b.txt''
                      @ quote @ '' AND trashed = false'') None]\<rparr>)
   \<and> GetFileByNameAndParent lib0 drive3 ''c.txt'' ''root'' world_names
       = Ret (Inl (Error ''Could not find c.txt in directory root''),
              world0\<lparr>requests :=
                [ListRequest svc3
                   (quote @ ''root'' @ quote @ '' in parents AND name = '' @ quote @ ''c.txt''
                      @ quote @ '' AND trashed = false'') None]\<rparr>)"
proof -
  let ?r = "\<lparr>Items = [file_a, file_b, file_b2], NextPageToken = []\<rparr>"
  have ls: "list_script world_names = Inr ?r # []"
    by (simp add: world_names_def)
  have ta: "Title file_a \<noteq> ''b.txt''" and tb: "Title file_b = ''b.txt''"
    by (simp_all add: file_a_def file_b_def)
  have it: "Items ?r = [file_a] @ file_b # [file_b2]" by simp
  have pre: "\<forall>g \<in> set [file_a]. Title g \<noteq> ''b.txt''" using ta by simp
  have none: "\<forall>g \<in> set (Items ?r). Title g \<noteq> ''c.txt''"
    by (simp add: file_a_def file_b_def file_b2_def)
  have w: "world_names\<lparr>list_script := [], requests := requests world_names @ [x]\<rparr>
           = world0\<lparr>requests := [x]\<rparr>" for x
    by (simp add: world_names_def world0_def)
  from GetFileByNameAndParent_scan [OF getClient_drive3 ls refl,
      of "[file_a]" file_b "[file_b2]" "''b.txt''" "''root''"] it pre tb
  have one: "GetFileByNameAndParent lib0 drive3 ''b.txt'' ''root'' world_names
       = Ret (Inr file_b,
              world0\<lparr>requests :=
                [ListRequest svc3
                   (quote @ ''root'' @ quote @ '' in parents AND name = '' @ quote @ ''b.txt''
                      @ quote @ '' AND trashed = false'') None]\<rparr>)"
    unfolding w by blast
  from GetFileByNameAndParent_scan [OF getClient_drive3 ls refl,
      of "[file_a]" file_b "[file_b2]" "''c.txt''" "''root''"] none
  have two: "GetFileByNameAndParent lib0 drive3 ''c.txt'' ''root'' world_names
       = Ret (Inl (Error ''Could not find c.txt in directory root''),
              world0\<lparr>requests :=
                [ListRequest svc3
                   (quote @ ''root'' @ quote @ '' in parents AND name = '' @ quote @ ''c.txt''
                      @ quote @ '' AND trashed = false'') None]\<rparr>)"
    unfolding w by simp
  from getClient_drive3 ta tb one two show ?thesis by blast
qed

section \<open>GetObject\<close>

lemma mapDriveToAPIObject_Size: "Size (fst (mapDriveToAPIObject L f w)) = FileSize_file f"
  by (simp add: mapDriveToAPIObject_def split: sum.split prod.split)

lemma mapDriveToAPIObject_requests:
  "requests (snd (mapDriveToAPIObject L f w)) = requests w"
  by (simp add: mapDriveToAPIObject_remote)

lemma mapDriveToAPIObject_download_script:
  "download_script (snd (mapDriveToAPIObject L f w)) = download_script w"
  by (simp add: mapDriveToAPIObject_def time_Now_def split: sum.split prod.split)

lemma FileSize_requests:
  assumes "getClient L d = Ret (Inr svc)" and "FileSize L d ident w = Ret (res, w2)"
  shows "requests w2 = requests w @ [DownloadRequest svc ident]"
  using assms
  by (auto simp: FileSize_def Files_Get_Download_def Let_def
      split: list.splits sum.splits if_splits)

text \<open>
  C4. When a client is obtained and the metadata fetch succeeds with the file \<open>o1\<close>:
  if the size of \<open>o1\<close> is zero, \<open>FileSize\<close> is called (a download request follows the
  metadata request), and when it returns an error \<open>GetObject\<close> still succeeds, with the
  object mapped from \<open>o1\<close> unchanged; when it returns a size, the object carries that
  size; if the size of \<open>o1\<close> is not zero, no download request is made and the object
  carries the size of \<open>o1\<close>.
\<close>

theorem GetObject_size_fallback:
  assumes "getClient L d = Ret (Inr svc)"
    and "get_script w = Inr o1 # gs"
    and "w1 = w\<lparr>get_script := gs, requests := requests w @ [GetRequest svc ident]\<rparr>"
  shows "(FileSize_file o1 = 0 \<and> FileSize L d ident w1 = Ret ((n, Some err), w2) \<longrightarrow>
            GetObject L d ident w
              = Ret (Inr (fst (mapDriveToAPIObject L o1 w2)), snd (mapDriveToAPIObject L o1 w2))
          \<and> Size (fst (mapDriveToAPIObject L o1 w2)) = FileSize_file o1
          \<and> requests (snd (mapDriveToAPIObject L o1 w2))
              = requests w @ [GetRequest svc ident, DownloadRequest svc ident])
       \<and> (FileSize_file o1 = 0 \<and> FileSize L d ident w1 = Ret ((n, None), w2) \<longrightarrow>
            GetObject L d ident w
              = Ret (Inr (fst (mapDriveToAPIObject L (o1\<lparr>FileSize_file := n\<rparr>) w2)),
                     snd (mapDriveToAPIObject L (o1\<lparr>FileSize_file := n\<rparr>) w2))
          \<and> Size (fst (mapDriveToAPIObject L (o1\<lparr>FileSize_file := n\<rparr>) w2)) = n
          \<and> requests (snd (mapDriveToAPIObject L (o1\<lparr>FileSize_file := n\<rparr>) w2))
              = requests w @ [GetRequest svc ident, DownloadRequest svc ident])
       \<and> (FileSize_file o1 \<noteq> 0 \<longrightarrow>
            GetObject L d ident w
              = Ret (Inr (fst (mapDriveToAPIObject L o1 w1)), snd (mapDriveToAPIObject L o1 w1))
          \<and> Size (fst (mapDriveToAPIObject L o1 w1)) = FileSize_file o1
          \<and> requests (snd (mapDriveToAPIObject L o1 w1)) = requests w @ [GetRequest svc ident]
          \<and> download_script (snd (mapDriveToAPIObject L o1 w1)) = download_script w)"
proof -
  have get: "Files_Get_Do svc ident w = Ret (Inr o1, w1)"
    using assms(2,3) by (simp add: Files_Get_Do_def)
  have r1: "requests w1 = requests w @ [GetRequest svc ident]"
    and d1: "download_script w1 = download_script w"
    using assms(3) by simp_all
  have fail: "GetObject L d ident w
              = Ret (Inr (fst (mapDriveToAPIObject L o1 w2)), snd (mapDriveToAPIObject L o1 w2))
          \<and> Size (fst (mapDriveToAPIObject L o1 w2)) = FileSize_file o1
          \<and> requests (snd (mapDriveToAPIObject L o1 w2))
              = requests w @ [GetRequest svc ident, DownloadRequest svc ident]"
    if z: "FileSize_file o1 = 0" and f: "FileSize L d ident w1 = Ret ((n, Some err), w2)"
  proof -
    have e: "o1\<lparr>FileSize_file := 0\<rparr> = o1" using z by (cases o1) simp
    have "GetObject L d ident w
              = Ret (Inr (fst (mapDriveToAPIObject L o1 w2)), snd (mapDriveToAPIObject L o1 w2))"
      using assms(1) get z f by (simp add: GetObject_def e split: prod.split)
    moreover have "requests w2 = requests w1 @ [DownloadRequest svc ident]"
      using assms(1) f by (rule FileSize_requests)
    ultimately show ?thesis
      by (simp add: mapDriveToAPIObject_Size mapDriveToAPIObject_requests r1)
  qed
  have ok: "GetObject L d ident w
              = Ret (Inr (fst (mapDriveToAPIObject L (o1\<lparr>FileSize_file := n\<rparr>) w2)),
                     snd (mapDriveToAPIObject L (o1\<lparr>FileSize_file := n\<rparr>) w2))
          \<and> Size (fst (mapDriveToAPIObject L (o1\<lparr>FileSize_file := n\<rparr>) w2)) = n
          \<and> requests (snd (mapDriveToAPIObject L (o1\<lparr>FileSize_file := n\<rparr>) w2))
              = requests w @ [GetRequest svc ident, DownloadRequest svc ident]"
    if z: "FileSize_file o1 = 0" and f: "FileSize L d ident w1 = Ret ((n, None), w2)"
  proof -
    have "requests w2 = requests w1 @ [DownloadRequest svc ident]"
      using assms(1) f by (rule FileSize_requests)
    then show ?thesis
      using assms(1) get z f
      by (simp add: GetObject_def mapDriveToAPIObject_Size mapDriveToAPIObject_requests r1
          split: prod.split)
  qed
  have nz: "GetObject L d ident w
              = Ret (Inr (fst (mapDriveToAPIObject L o1 w1)), snd (mapDriveToAPIObject L o1 w1))
          \<and> Size (fst (mapDriveToAPIObject L o1 w1)) = FileSize_file o1
          \<and> requests (snd (mapDriveToAPIObject L o1 w1)) = requests w @ [GetRequest svc ident]
          \<and> download_script (snd (mapDriveToAPIObject L o1 w1)) = download_script w"
    if "FileSize_file o1 \<noteq> 0"
    using assms(1) get that
    by (simp add: GetObject_def mapDriveToAPIObject_Size mapDriveToAPIObject_requests
        mapDriveToAPIObject_download_script r1 d1 split: prod.split)
  from fail ok nz show ?thesis by blast
qed

theorem GetObject_size_fallback_witness:
  "getClient lib0 drive3 = Ret (Inr svc3)
   \<and> FileSize_file file_b = 0
   \<and> FileSize lib0 drive3 ''2''
         (world_get file_b\<lparr>get_script := [], requests := [GetRequest svc3 ''2'']\<rparr>)
       = Ret ((0, Some (Error ''timeout'')),
              world0\<lparr>requests := [GetRequest svc3 ''2'', DownloadRequest svc3 ''2'']\<rparr>)
   \<and> GetObject lib0 drive3 ''2'' (world_get file_b)
       = Ret (Inr \<lparr>ID = ''2'', Parents = [''root'', ''other''], Name = ''b.txt'', IsDir = False,
                   Size = 0, MTime = 1000, DownloadURL = ''https://dl/2''\<rparr>,
              world0\<lparr>requests := [GetRequest svc3 ''2'', DownloadRequest svc3 ''2''],
                     clock_reads := 1\<rparr>)
   \<and> FileSize_file file_a \<noteq> 0
   \<and> GetObject lib0 drive3 ''1'' (world_get file_a)
       = Ret (Inr \<lparr>ID = ''1'', Parents = [''root''], Name = ''a.txt'', IsDir = False,
                   Size = 42, MTime = 1577836800, DownloadURL = ''https://dl/1''\<rparr>,
              world0\<lparr>requests := [GetRequest svc3 ''1''],
                     download_script := [Inl (Error ''timeout'')]\<rparr>)"
proof -
  let ?w1 = "world_get file_b\<lparr>get_script := [], requests := [GetRequest svc3 ''2'']\<rparr>"
  let ?w2 = "world0\<lparr>requests := [GetRequest svc3 ''2'', DownloadRequest svc3 ''2'']\<rparr>"
  let ?v1 = "world_get file_a\<lparr>get_script := [], requests := [GetRequest svc3 ''1'']\<rparr>"
  have gb: "get_script (world_get file_b) = Inr file_b # []"
    and ga: "get_script (world_get file_a) = Inr file_a # []"
    by (simp_all add: world_get_def)
  have wb: "?w1 = world_get file_b\<lparr>get_script := [],
                    requests := requests (world_get file_b) @ [GetRequest svc3 ''2'']\<rparr>"
    and wa: "?v1 = world_get file_a\<lparr>get_script := [],
                    requests := requests (world_get file_a) @ [GetRequest svc3 ''1'']\<rparr>"
    by (simp_all add: world_get_def world0_def)
  have zb: "FileSize_file file_b = 0" by (simp add: file_b_def)
  have za: "FileSize_file file_a \<noteq> 0" by (simp add: file_a_def)
  have fs: "FileSize lib0 drive3 ''2'' ?w1 = Ret ((0, Some (Error ''timeout'')), ?w2)"
    by (simp add: FileSize_def getClient_drive3 Files_Get_Download_def world_get_def world0_def)
  have mb: "mapDriveToAPIObject lib0 file_b ?w2
            = (\<lparr>ID = ''2'', Parents = [''root'', ''other''], Name = ''b.txt'', IsDir = False,
                   Size = 0, MTime = 1000, DownloadURL = ''https://dl/2''\<rparr>,
               world0\<lparr>requests := [GetRequest svc3 ''2'', DownloadRequest svc3 ''2''],
                     clock_reads := 1\<rparr>)"
    by (simp add: mapDriveToAPIObject_def time_Now_def lib0_def file_b_def world0_def)
  have ma: "mapDriveToAPIObject lib0 file_a ?v1
            = (\<lparr>ID = ''1'', Parents = [''root''], Name = ''a.txt'', IsDir = False,
                   Size = 42, MTime = 1577836800, DownloadURL = ''https://dl/1''\<rparr>,
               world0\<lparr>requests := [GetRequest svc3 ''1''],
                     download_script := [Inl (Error ''timeout'')]\<rparr>)"
    by (simp add: mapDriveToAPIObject_def lib0_def file_a_def world_get_def world0_def)
  from GetObject_size_fallback [OF getClient_drive3 gb wb, of 0 "Error ''timeout''" ?w2] zb fs
  have one: "GetObject lib0 drive3 ''2'' (world_get file_b)
       = Ret (Inr (fst (mapDriveToAPIObject lib0 file_b ?w2)),
              snd (mapDriveToAPIObject lib0 file_b ?w2))"
    by blast
  from GetObject_size_fallback [OF getClient_drive3 ga wa, of 0 "Error ''timeout''" ?w2] za
  have two: "GetObject lib0 drive3 ''1'' (world_get file_a)
       = Ret (Inr (fst (mapDriveToAPIObject lib0 file_a ?v1)),
              snd (mapDriveToAPIObject lib0 file_a ?v1))"
    by blast
  from one two show ?thesis
    unfolding mb ma using getClient_drive3 zb za fs by simp
qed

section \<open>storeTokens\<close>

lemma storeTokens_marshal_error:
  "json_Marshal L toks = Inl err \<Longrightarrow>
   storeTokens L tokenPath toks w = (Some (Error (''Could not store tokens, '' @ message err)), w)"
  by (simp add: storeTokens_def)

lemma storeTokens_write_error_dropped:
  "json_Marshal L toks = Inr j \<Longrightarrow> write_error w tokenPath = Some err \<Longrightarrow>
   fst (ioutil_WriteFile tokenPath j w) = Some err
   \<and> fst (storeTokens L tokenPath toks w) = None"
  by (simp add: storeTokens_def ioutil_WriteFile_def)

text \<open>
  C3. A failure of serialization is returned. A failure of the write is not: with a
  token list that serializes and a path that cannot be written, \<^verbatim>\<open>ioutil.WriteFile\<close>
  reports the error, \<open>storeTokens\<close> returns \<^verbatim>\<open>nil\<close>, and no file holds the tokens.
\<close>

theorem storeTokens_write_failure:
  "json_Marshal lib0 [token1] = Inr ''a1;''
   \<and> fst (ioutil_WriteFile ''/etc/token.json'' ''a1;'' world_ro)
       = Some (Error ''open /etc/token.json: permission denied'')
   \<and> fst (storeTokens lib0 ''/etc/token.json'' [token1] world_ro) = None
   \<and> disk (snd (storeTokens lib0 ''/etc/token.json'' [token1] world_ro)) ''/etc/token.json'' = None"
  by (simp add: storeTokens_def ioutil_WriteFile_def world_ro_def world0_def lib0_def token1_def)

section \<open>GetObjectsByParent\<close>

lemma mapDriveToAPIObject_frame:
  "mapDriveToAPIObject L f (w\<lparr>list_script := a, requests := b\<rparr>)
     = (fst (mapDriveToAPIObject L f w),
        (snd (mapDriveToAPIObject L f w))\<lparr>list_script := a, requests := b\<rparr>)"
  by (simp add: mapDriveToAPIObject_def time_Now_def split: sum.split)

lemma appendMapped_frame:
  "appendMapped L items files (w\<lparr>list_script := a, requests := b\<rparr>)
     = (fst (appendMapped L items files w),
        (snd (appendMapped L items files w))\<lparr>list_script := a, requests := b\<rparr>)"
proof (induction items arbitrary: files w)
  case Nil
  then show ?case by simp
next
  case (Cons f rest)
  then show ?case
    by (simp add: mapDriveToAPIObject_frame split: prod.split)
qed

lemma appendMapped_append:
  "appendMapped L (xs @ ys) files w
     = appendMapped L ys (fst (appendMapped L xs files w)) (snd (appendMapped L xs files w))"
  by (induction xs arbitrary: files w) (simp_all split: prod.split)

lemma listPages_error:
  assumes "list_script w = Inl err # rest"
  shows "listPages L svc parentID tok files w
           = Ret (files, w\<lparr>list_script := rest,
                   requests := requests w @
                     [ListRequest svc (quote @ parentID @ quote @ '' in parents AND trashed = false'')
                        (if [] \<noteq> tok then Some tok else None)]\<rparr>)"
  using assms by (subst listPages.simps) (simp add: Files_List_Do_def)

lemma listPages_page:
  assumes "list_script w = Inr p # rest"
  shows "listPages L svc parentID tok files w
           = (case appendMapped L (Items p) files
                     (w\<lparr>list_script := rest,
                        requests := requests w @
                          [ListRequest svc
                             (quote @ parentID @ quote @ '' in parents AND trashed = false'')
                             (if [] \<noteq> tok then Some tok else None)]\<rparr>) of
                (files', w2) \<Rightarrow>
                  if [] = NextPageToken p then Ret (files', w2)
                  else listPages L svc parentID (NextPageToken p) files' w2)"
  using assms by (subst listPages.simps) (simp add: Files_List_Do_def)

lemma listPages_pages_then_error:
  assumes "\<forall>p \<in> set pages. NextPageToken p \<noteq> []"
    and "list_script w = map Inr pages @ Inl err # rest"
  shows "listPages L svc parentID tok files w
           = Ret (fst (appendMapped L (concat (map Items pages)) files w),
                  (snd (appendMapped L (concat (map Items pages)) files w))
                    \<lparr>list_script := rest,
                     requests := requests w @
                       pageRequests svc (quote @ parentID @ quote @ '' in parents AND trashed = false'')
                         (if [] \<noteq> tok then Some tok else None) pages\<rparr>)"
  using assms
proof (induction pages arbitrary: tok files w)
  case Nil
  then show ?case by (simp add: listPages_error pageRequests_def)
next
  case (Cons p ps)
  let ?q = "quote @ parentID @ quote @ '' in parents AND trashed = false''"
  let ?t = "if [] \<noteq> tok then Some tok else None"
  let ?A = "appendMapped L (Items p) files w"
  let ?w2 = "(snd ?A)\<lparr>list_script := map Inr ps @ Inl err # rest,
                       requests := requests w @ [ListRequest svc ?q ?t]\<rparr>"
  from Cons.prems have ls: "list_script w = Inr p # (map Inr ps @ Inl err # rest)"
    and np: "NextPageToken p \<noteq> []" and nps: "\<forall>p \<in> set ps. NextPageToken p \<noteq> []"
    by simp_all
  have ls2: "list_script ?w2 = map Inr ps @ Inl err # rest" by simp
  have "listPages L svc parentID tok files w
          = listPages L svc parentID (NextPageToken p) (fst ?A) ?w2"
    using np by (simp add: listPages_page [OF ls] appendMapped_frame)
  also have "\<dots> = Ret (fst (appendMapped L (concat (map Items ps)) (fst ?A) ?w2),
                  (snd (appendMapped L (concat (map Items ps)) (fst ?A) ?w2))
                    \<lparr>list_script := rest,
                     requests := requests ?w2 @
                       pageRequests svc ?q (if [] \<noteq> NextPageToken p then Some (NextPageToken p) else None) ps\<rparr>)"
    by (rule Cons.IH [OF nps ls2])
  also have "\<dots> = Ret (fst (appendMapped L (concat (map Items (p # ps))) files w),
                  (snd (appendMapped L (concat (map Items (p # ps))) files w))
                    \<lparr>list_script := rest,
                     requests := requests w @ pageRequests svc ?q ?t (p # ps)\<rparr>)"
    using np by (simp add: appendMapped_frame appendMapped_append pageRequests_def)
  finally show ?case .
qed

lemma appendMapped_acc:
  "fst (appendMapped L items files w) = files @ fst (appendMapped L items [] w)
   \<and> snd (appendMapped L items files w) = snd (appendMapped L items [] w)"
proof (induction items arbitrary: files w)
  case Nil
  then show ?case by simp
next
  case (Cons f rest)
  obtain object w1 where m: "mapDriveToAPIObject L f w = (object, w1)"
    by (cases "mapDriveToAPIObject L f w")
  show ?case
    using Cons [of "files @ [object]" w1] Cons [of "[object]" w1] m by simp
qed

lemma appendMapped_IDs:
  "map ID (fst (appendMapped L items files w)) = map ID files @ map Id_file items"
proof (induction items arbitrary: files w)
  case Nil
  then show ?case by simp
next
  case (Cons f rest)
  obtain object w1 where m: "mapDriveToAPIObject L f w = (object, w1)"
    by (cases "mapDriveToAPIObject L f w")
  then have "ID object = Id_file f"
    by (auto simp: mapDriveToAPIObject_def split: sum.splits prod.splits)
  then show ?case using Cons [of "files @ [object]" w1] m by simp
qed

text \<open>
  C1. When a client is obtained and the listing answers with the pages \<open>pages\<close>, each
  with a continuation token, and then with an error, \<open>GetObjectsByParent\<close> returns
  \<^verbatim>\<open>nil\<close> as its error and the objects mapped from the items of these pages, in
  order (none when the first fetch fails). It has issued one request per page and the
  one that failed, and leaves the rest of the script untouched.
\<close>

theorem GetObjectsByParent_swallows_error:
  assumes "getClient L d = Ret (Inr svc)"
    and "list_script w = map Inr pages @ Inl err # rest"
    and "\<forall>p \<in> set pages. NextPageToken p \<noteq> []"
  shows "GetObjectsByParent L d parentID w
           = Ret (Inr (fst (appendMapped L (concat (map Items pages)) [] w)),
                  (snd (appendMapped L (concat (map Items pages)) [] w))
                    \<lparr>list_script := rest,
                     requests := requests w @
                       pageRequests svc (quote @ parentID @ quote @ '' in parents AND trashed = false'')
                         None pages\<rparr>)
         \<and> map ID (fst (appendMapped L (concat (map Items pages)) [] w))
             = map Id_file (concat (map Items pages))"
  using assms(1) listPages_pages_then_error [OF assms(3,2), of L svc parentID "[]" "[]"]
  by (simp add: GetObjectsByParent_def appendMapped_IDs)

lemma map_file_a: "mapDriveToAPIObject lib0 file_a w = (object_a, w)"
  by (simp add: mapDriveToAPIObject_def lib0_def file_a_def object_a_def)

lemma map_file_b:
  "mapDriveToAPIObject lib0 file_b w
     = (object_b (clock w (clock_reads w)), w\<lparr>clock_reads := Suc (clock_reads w)\<rparr>)"
  by (simp add: mapDriveToAPIObject_def time_Now_def lib0_def file_b_def object_b_def)

lemma map_file_b2: "mapDriveToAPIObject lib0 file_b2 w = (object_b2, w)"
  by (simp add: mapDriveToAPIObject_def lib0_def file_b2_def object_b2_def)

theorem GetObjectsByParent_swallows_error_witness:
  "getClient lib0 drive3 = Ret (Inr svc3)
   \<and> list_script world_pages = map Inr [page1, page2] @ Inl (Error ''503'') # [Inr page3]
   \<and> NextPageToken page1 \<noteq> [] \<and> NextPageToken page2 \<noteq> []
   \<and> GetObjectsByParent lib0 drive3 ''root'' world_pages
       = Ret (Inr [object_a, object_b 1000, object_b2],
              world0\<lparr>clock_reads := 1, list_script := [Inr page3],
                     requests :=
                       [ListRequest svc3 (quote @ ''root'' @ quote @ '' in parents AND trashed = false'') None,
                        ListRequest svc3 (quote @ ''root'' @ quote @ '' in parents AND trashed = false'') (Some ''t1''),
                        ListRequest svc3 (quote @ ''root'' @ quote @ '' in parents AND trashed = false'') (Some ''t2'')]\<rparr>)"
proof -
  have ls: "list_script world_pages = map Inr [page1, page2] @ Inl (Error ''503'') # [Inr page3]"
    by (simp add: world_pages_def)
  have n1: "NextPageToken page1 \<noteq> []" and n2: "NextPageToken page2 \<noteq> []"
    by (simp_all add: page1_def page2_def)
  then have np: "\<forall>p \<in> set [page1, page2]. NextPageToken p \<noteq> []" by simp
  have items: "concat (map Items [page1, page2]) = [file_a, file_b, file_b2]"
    by (simp add: page1_def page2_def)
  have am: "appendMapped lib0 [file_a, file_b, file_b2] [] world_pages
            = ([object_a, object_b 1000, object_b2], world_pages\<lparr>clock_reads := 1\<rparr>)"
    by (simp add: map_file_a map_file_b map_file_b2 world_pages_def world0_def)
  from GetObjectsByParent_swallows_error [OF getClient_drive3 ls np, of "''root''"]
  have "GetObjectsByParent lib0 drive3 ''root'' world_pages
       = Ret (Inr [object_a, object_b 1000, object_b2],
              world_pages\<lparr>clock_reads := 1, list_script := [Inr page3],
                requests := requests world_pages @
                  pageRequests svc3 (quote @ ''root'' @ quote @ '' in parents AND trashed = false'')
                    None [page1, page2]\<rparr>)"
    unfolding items am by simp
  then show ?thesis
    using getClient_drive3 ls n1 n2
    by (simp add: pageRequests_def world_pages_def world0_def page1_def page2_def)
qed

section \<open>startAutoRefresh\<close>

lemma Cache_Store_frame:
  "Cache_Store object (w\<lparr>list_script := a, requests := b\<rparr>)
     = (fst (Cache_Store object w), (snd (Cache_Store object w))\<lparr>list_script := a, requests := b\<rparr>)"
  by (simp add: Cache_Store_def split: option.split)

lemma storeItems_frame:
  "storeItems L items (w\<lparr>list_script := a, requests := b\<rparr>)
     = (storeItems L items w)\<lparr>list_script := a, requests := b\<rparr>"
proof (induction items arbitrary: w)
  case Nil
  then show ?case by simp
next
  case (Cons f rest)
  then show ?case
    by (simp add: mapDriveToAPIObject_frame Cache_Store_frame split: prod.split)
qed

lemma mapDriveToAPIObject_clock_only:
  assumes "clock v = clock w" and "clock_reads v = clock_reads w"
  shows "fst (mapDriveToAPIObject L f v) = fst (mapDriveToAPIObject L f w)
       \<and> clock (snd (mapDriveToAPIObject L f v)) = clock (snd (mapDriveToAPIObject L f w))
       \<and> clock_reads (snd (mapDriveToAPIObject L f v))
           = clock_reads (snd (mapDriveToAPIObject L f w))"
  using assms by (simp add: mapDriveToAPIObject_def time_Now_def split: sum.split)

lemma appendMapped_clock_only:
  assumes "clock v = clock w" and "clock_reads v = clock_reads w"
  shows "fst (appendMapped L items files v) = fst (appendMapped L items files w)"
  using assms
proof (induction items arbitrary: files v w)
  case Nil
  then show ?case by simp
next
  case (Cons f rest)
  obtain ov v1 where mv: "mapDriveToAPIObject L f v = (ov, v1)"
    by (cases "mapDriveToAPIObject L f v")
  obtain ow w1 where mw: "mapDriveToAPIObject L f w = (ow, w1)"
    by (cases "mapDriveToAPIObject L f w")
  from mapDriveToAPIObject_clock_only [OF Cons.prems, of L f] mv mw
  have "ov = ow" and "clock v1 = clock w1" and "clock_reads v1 = clock_reads w1"
    by simp_all
  then show ?case using Cons.IH [of v1 w1 "files @ [ow]"] mv mw by simp
qed

lemma mapDriveToAPIObject_cache:
  "cache (snd (mapDriveToAPIObject L f w)) = cache w
   \<and> store_calls (snd (mapDriveToAPIObject L f w)) = store_calls w
   \<and> store_error (snd (mapDriveToAPIObject L f w)) = store_error w"
  by (simp add: mapDriveToAPIObject_def time_Now_def split: sum.split)

lemma Cache_Store_effect:
  "store_calls (snd (Cache_Store object w)) = store_calls w @ [object]
   \<and> cache (snd (Cache_Store object w))
       = (if store_error w object = None then (cache w)(ID object \<mapsto> object) else cache w)
   \<and> store_error (snd (Cache_Store object w)) = store_error w
   \<and> clock (snd (Cache_Store object w)) = clock w
   \<and> clock_reads (snd (Cache_Store object w)) = clock_reads w"
  by (simp add: Cache_Store_def split: option.split)

lemma storeItems_cache:
  "store_error (storeItems L items w) = store_error w
   \<and> store_calls (storeItems L items w) = store_calls w @ fst (appendMapped L items [] w)
   \<and> cache (storeItems L items w)
       = upsertAll (store_error w) (cache w) (fst (appendMapped L items [] w))"
proof (induction items arbitrary: w)
  case Nil
  then show ?case by (simp add: upsertAll_def)
next
  case (Cons f rest)
  obtain object w1 where m: "mapDriveToAPIObject L f w = (object, w1)"
    by (cases "mapDriveToAPIObject L f w")
  obtain err w2 where c: "Cache_Store object w1 = (err, w2)"
    by (cases "Cache_Store object w1")
  have w1: "cache w1 = cache w" "store_calls w1 = store_calls w" "store_error w1 = store_error w"
    using mapDriveToAPIObject_cache [of L f w] m by simp_all
  have w2: "store_calls w2 = store_calls w @ [object]"
    "cache w2 = (if store_error w object = None then (cache w)(ID object \<mapsto> object) else cache w)"
    "store_error w2 = store_error w" "clock w2 = clock w1" "clock_reads w2 = clock_reads w1"
    using Cache_Store_effect [of object w1] c w1 by simp_all
  have same: "fst (appendMapped L rest [] w2) = fst (appendMapped L rest [] w1)"
    using w2(4,5) by (rule appendMapped_clock_only)
  have split: "fst (appendMapped L (f # rest) [] w) = object # fst (appendMapped L rest [] w1)"
    using m appendMapped_acc [of L rest "[object]" w1] by simp
  have st: "storeItems L (f # rest) w = storeItems L rest w2"
    using m c by simp
  show ?case
    unfolding st split using Cons [of w2] w2 same by (simp add: upsertAll_def)
qed

lemma refreshPages_error:
  assumes "list_script w = Inl err # rest"
  shows "refreshPages L svc checkDate tok w
           = Ret (w\<lparr>list_script := rest,
                   requests := requests w @
                     [ListRequest svc (''modifiedTime > '' @ quote @ checkDate @ quote)
                        (if [] \<noteq> tok then Some tok else None)]\<rparr>)"
  using assms by (subst refreshPages.simps) (simp add: Files_List_Do_def)

lemma refreshPages_page:
  assumes "list_script w = Inr p # rest"
  shows "refreshPages L svc checkDate tok w
           = (let w2 = (storeItems L (Items p) w)
                     \<lparr>list_script := rest,
                      requests := requests w @
                        [ListRequest svc (''modifiedTime > '' @ quote @ checkDate @ quote)
                           (if [] \<noteq> tok then Some tok else None)]\<rparr>
              in if [] = NextPageToken p then Ret w2
                 else refreshPages L svc checkDate (NextPageToken p) w2)"
  using assms
  by (subst refreshPages.simps) (simp add: Files_List_Do_def storeItems_frame Let_def)

lemma tick_first_answer_last:
  assumes "list_script w = r # rest"
    and "\<forall>p. r = Inr p \<longrightarrow> NextPageToken p = []"
  shows "\<exists>w2. tick L svc lastCheck w = Ret (clock w (clock_reads w), w2)
              \<and> list_script w2 = rest
              \<and> requests w2 = requests w @
                  [ListRequest svc (''modifiedTime > '' @ quote @ time_Format L lastCheck @ quote)
                     None]"
proof (cases r)
  case (Inl err)
  with assms(1) show ?thesis
    by (simp add: tick_def time_Now_def refreshPages_error)
next
  case (Inr p)
  with assms have "NextPageToken p = []" by simp
  with Inr assms(1) show ?thesis
    by (simp add: tick_def time_Now_def refreshPages_page Let_def storeItems_remote)
qed

text \<open>
  C5. A tick whose first page \<open>p1\<close> carries a continuation token and whose second
  fetch fails: the tick returns, having called \<^verbatim>\<open>Cache.Store\<close> on the object mapped
  from each item of \<open>p1\<close>, in order (so the cache holds them by identifier, where it
  accepts them); it has issued the request for page 1 and the one for page 2 and no
  other, and has taken no further answer from the service. The next tick starts over:
  its first request carries no page token and the new checkpoint.
\<close>

theorem tick_page2_fails:
  assumes "list_script w = Inr p1 # Inl err # rest"
    and "NextPageToken p1 \<noteq> []"
    and "q = ''modifiedTime > '' @ quote @ time_Format L lastCheck @ quote"
    and "w1 = w\<lparr>clock_reads := Suc (clock_reads w)\<rparr>"
    and "w2 = (storeItems L (Items p1) w1)
                \<lparr>list_script := rest,
                 requests := requests w @
                   [ListRequest svc q None, ListRequest svc q (Some (NextPageToken p1))]\<rparr>"
  shows "tick L svc lastCheck w = Ret (clock w (clock_reads w), w2)
       \<and> store_calls w2 = store_calls w @ fst (appendMapped L (Items p1) [] w1)
       \<and> map ID (fst (appendMapped L (Items p1) [] w1)) = map Id_file (Items p1)
       \<and> cache w2 = upsertAll (store_error w) (cache w) (fst (appendMapped L (Items p1) [] w1))
       \<and> list_script w2 = rest
       \<and> (rest = r # rest' \<and> (\<forall>p. r = Inr p \<longrightarrow> NextPageToken p = []) \<longrightarrow>
            (\<exists>w3. ticks (Suc (Suc 0)) L svc lastCheck w = Ret (clock w2 (clock_reads w2), w3)
               \<and> list_script w3 = rest'
               \<and> requests w3 = requests w @
                    [ListRequest svc q None, ListRequest svc q (Some (NextPageToken p1)),
                     ListRequest svc
                       (''modifiedTime > '' @ quote @ time_Format L (clock w (clock_reads w)) @ quote)
                       None]))"
proof -
  have ls1: "list_script w1 = Inr p1 # Inl err # rest"
    and rq1: "requests w1 = requests w"
    using assms(1,4) by simp_all
  let ?v = "(storeItems L (Items p1) w1)
              \<lparr>list_script := Inl err # rest, requests := requests w @ [ListRequest svc q None]\<rparr>"
  have "refreshPages L svc (time_Format L lastCheck) [] w1
          = refreshPages L svc (time_Format L lastCheck) (NextPageToken p1) ?v"
    using assms(2,3) rq1 by (simp add: refreshPages_page [OF ls1] Let_def)
  also have "\<dots> = Ret (?v\<lparr>list_script := rest,
                     requests := requests ?v @
                       [ListRequest svc (''modifiedTime > '' @ quote @ time_Format L lastCheck @ quote)
                          (if [] \<noteq> NextPageToken p1 then Some (NextPageToken p1) else None)]\<rparr>)"
    by (rule refreshPages_error) simp
  also have "\<dots> = Ret w2"
    using assms(2,3,5) by simp
  finally have rp: "refreshPages L svc (time_Format L lastCheck) [] w1 = Ret w2" .
  have t1: "tick L svc lastCheck w = Ret (clock w (clock_reads w), w2)"
    using rp assms(4) by (simp add: tick_def time_Now_def)
  have sc: "store_calls w2 = store_calls w @ fst (appendMapped L (Items p1) [] w1)"
    and ca: "cache w2 = upsertAll (store_error w) (cache w) (fst (appendMapped L (Items p1) [] w1))"
    using storeItems_cache [of L "Items p1" w1] assms(4,5) by simp_all
  have ids: "map ID (fst (appendMapped L (Items p1) [] w1)) = map Id_file (Items p1)"
    by (simp add: appendMapped_IDs)
  have ls2: "list_script w2 = rest" and rq2: "requests w2 = requests w @
                   [ListRequest svc q None, ListRequest svc q (Some (NextPageToken p1))]"
    using assms(5) by simp_all
  have nxt: "\<exists>w3. ticks (Suc (Suc 0)) L svc lastCheck w = Ret (clock w2 (clock_reads w2), w3)
               \<and> list_script w3 = rest'
               \<and> requests w3 = requests w @
                    [ListRequest svc q None, ListRequest svc q (Some (NextPageToken p1)),
                     ListRequest svc
                       (''modifiedTime > '' @ quote @ time_Format L (clock w (clock_reads w)) @ quote)
                       None]"
    if r: "rest = r # rest'" and fin: "\<forall>p. r = Inr p \<longrightarrow> NextPageToken p = []"
  proof -
    from ls2 r have "list_script w2 = r # rest'" by simp
    from tick_first_answer_last [OF this fin, of L svc "clock w (clock_reads w)"]
    obtain w3 where "tick L svc (clock w (clock_reads w)) w2 = Ret (clock w2 (clock_reads w2), w3)"
      and "list_script w3 = rest'"
      and "requests w3 = requests w2 @
             [ListRequest svc
                (''modifiedTime > '' @ quote @ time_Format L (clock w (clock_reads w)) @ quote) None]"
      by blast
    then show ?thesis using t1 rq2 by simp
  qed
  from t1 sc ids ca ls2 nxt show ?thesis by blast
qed

lemma show_int_500: "show_int 500 = ''500''"
  by (simp add: show_int_def show_nat_step show_nat_digit digit_def)

lemma show_int_1000: "show_int 1000 = ''1000''"
  by (simp add: show_int_def show_nat_step show_nat_digit digit_def)

theorem tick_page2_fails_witness:
  "list_script world_poll = Inr page1 # Inl (Error ''503'') # [Inr page3]
   \<and> NextPageToken page1 \<noteq> []
   \<and> tick lib0 svc3 500 world_poll = Ret (1000, world_polled)
   \<and> store_calls world_polled = [object_a, object_b 1001]
   \<and> cache world_polled ''1'' = Some object_a
   \<and> cache world_polled ''2'' = Some (object_b 1001)
   \<and> list_script world_polled = [Inr page3]
   \<and> NextPageToken page3 = []
   \<and> (\<exists>w3. ticks (Suc (Suc 0)) lib0 svc3 500 world_poll = Ret (1002, w3)
          \<and> list_script w3 = []
          \<and> requests w3 =
               [ListRequest svc3 (''modifiedTime > '' @ quote @ ''t500'' @ quote) None,
                ListRequest svc3 (''modifiedTime > '' @ quote @ ''t500'' @ quote) (Some ''t1''),
                ListRequest svc3 (''modifiedTime > '' @ quote @ ''t1000'' @ quote) None])"
proof -
  let ?q = "''modifiedTime > '' @ quote @ time_Format lib0 500 @ quote"
  let ?w1 = "world_poll\<lparr>clock_reads := Suc (clock_reads world_poll)\<rparr>"
  let ?w2 = "(storeItems lib0 (Items page1) ?w1)
                \<lparr>list_script := [Inr page3],
                 requests := requests world_poll @
                   [ListRequest svc3 ?q None, ListRequest svc3 ?q (Some (NextPageToken page1))]\<rparr>"
  have ls: "list_script world_poll = Inr page1 # Inl (Error ''503'') # [Inr page3]"
    by (simp add: world_poll_def)
  have n1: "NextPageToken page1 \<noteq> []" by (simp add: page1_def)
  have n3: "\<forall>p. (Inr page3 :: error + FileList) = Inr p \<longrightarrow> NextPageToken p = []"
    by (simp add: page3_def)
  have f500: "time_Format lib0 500 = ''t500''" and f1000: "time_Format lib0 1000 = ''t1000''"
    by (simp_all add: lib0_def show_int_500 show_int_1000)
  have st: "storeItems lib0 (Items page1) ?w1
            = world_poll\<lparr>clock_reads := 2,
                 cache := [''1'' \<mapsto> object_a, ''2'' \<mapsto> object_b 1001],
                 store_calls := [object_a, object_b 1001]\<rparr>"
    by (simp add: page1_def map_file_a map_file_b Cache_Store_def world_poll_def world0_def
        object_a_def object_b_def)
  have w2: "?w2 = world_polled"
    unfolding st f500
    by (simp add: world_polled_def world_poll_def world0_def page1_def)
  have c0: "clock world_poll (clock_reads world_poll) = 1000"
    by (simp add: world_poll_def world0_def)
  have c2: "clock world_polled (clock_reads world_polled) = 1002"
    by (simp add: world_polled_def world0_def)
  have rq: "requests world_poll = []" by (simp add: world_poll_def world0_def)
  note th = tick_page2_fails [where L = lib0 and lastCheck = 500 and svc = svc3
      and r = "Inr page3" and rest' = "[]", OF ls n1 refl refl refl, unfolded w2]
  have t: "tick lib0 svc3 500 world_poll = Ret (1000, world_polled)"
    using th [THEN conjunct1] unfolding c0 .
  have prem: "[Inr page3] = Inr page3 # [] \<and> (\<forall>p. Inr page3 = Inr p \<longrightarrow> NextPageToken p = [])"
    using n3 by simp
  have tk: "NextPageToken page1 = ''t1''" by (simp add: page1_def)
  note nx0 = th [THEN conjunct2, THEN conjunct2, THEN conjunct2, THEN conjunct2,
      THEN conjunct2, THEN mp, OF prem]
  have nx: "\<exists>w3. ticks (Suc (Suc 0)) lib0 svc3 500 world_poll = Ret (1002, w3)
          \<and> list_script w3 = []
          \<and> requests w3 =
               [ListRequest svc3 (''modifiedTime > '' @ quote @ ''t500'' @ quote) None,
                ListRequest svc3 (''modifiedTime > '' @ quote @ ''t500'' @ quote) (Some ''t1''),
                ListRequest svc3 (''modifiedTime > '' @ quote @ ''t1000'' @ quote) None]"
    using nx0 unfolding c0 c2 f500 f1000 rq tk by (simp only: append_Nil)
  have rest: "store_calls world_polled = [object_a, object_b 1001]"
    "cache world_polled ''1'' = Some object_a"
    "cache world_polled ''2'' = Some (object_b 1001)"
    "list_script world_polled = [Inr page3]"
    "NextPageToken page3 = []"
    by (simp_all add: world_polled_def page3_def)
  from ls n1 t rest nx show ?thesis by blast
qed

section \<open>authorize\<close>

lemma getTokenFromWeb_ok:
  assumes "stdin w = Inr code # sin" and "exchange_script w = Inr tok # ex"
  shows "getTokenFromWeb L config w
           = Ret (tok, w\<lparr>stdin := sin, exchange_script := ex,
                         requests := requests w @ [ExchangeRequest config code],
                         stdout := stdout w @
                           [''Go to the following link in your browser ''
                              @ AuthCodeURL L config @ [CHR 0x0A],
                            ''Paste the authorization code: '']\<rparr>)"
  using assms
  by (simp add: getTokenFromWeb_def fmt_Printf_def fmt_Scan_def Exchange_def)

lemma exchangeAll_ok:
  assumes "length codes = length accs" and "length toks = length accs"
    and "stdin w = map Inr codes @ sin"
    and "exchange_script w = map Inr toks @ ex"
  shows "exchangeAll L accs d w
           = Ret (d\<lparr>configs := configs d @ map newConfig accs, tokens := tokens d @ toks\<rparr>,
                  w\<lparr>stdin := sin, exchange_script := ex,
                    requests := requests w @ exchangeRequests accs codes,
                    stdout := stdout w @ consentPrompts L accs\<rparr>)"
  using assms
proof (induction accs arbitrary: codes toks d w)
  case Nil
  then show ?case by (simp add: exchangeRequests_def consentPrompts_def)
next
  case (Cons a accs)
  from Cons.prems(1) obtain c cs where codes: "codes = c # cs" and lc: "length cs = length accs"
    by (cases codes) auto
  from Cons.prems(2) obtain t ts where toks: "toks = t # ts" and lt: "length ts = length accs"
    by (cases toks) auto
  let ?w1 = "w\<lparr>stdin := map Inr cs @ sin, exchange_script := map Inr ts @ ex,
                 requests := requests w @ [ExchangeRequest (newConfig a) c],
                 stdout := stdout w @
                   [''Go to the following link in your browser ''
                      @ AuthCodeURL L (newConfig a) @ [CHR 0x0A],
                    ''Paste the authorization code: '']\<rparr>"
  let ?d1 = "d\<lparr>configs := configs d @ [newConfig a], tokens := tokens d @ [t]\<rparr>"
  have g: "getTokenFromWeb L (newConfig a) w = Ret (t, ?w1)"
    using Cons.prems(3,4) codes toks by (simp add: getTokenFromWeb_ok)
  have "exchangeAll L (a # accs) d w = exchangeAll L accs ?d1 ?w1"
    using g by (simp add: Let_def)
  also have "\<dots> = Ret (?d1\<lparr>configs := configs ?d1 @ map newConfig accs,
                             tokens := tokens ?d1 @ ts\<rparr>,
                  ?w1\<lparr>stdin := sin, exchange_script := ex,
                    requests := requests ?w1 @ exchangeRequests accs cs,
                    stdout := stdout ?w1 @ consentPrompts L accs\<rparr>)"
    by (rule Cons.IH [OF lc lt]) simp_all
  also have "\<dots> = Ret (d\<lparr>configs := configs d @ map newConfig (a # accs),
                          tokens := tokens d @ toks\<rparr>,
                  w\<lparr>stdin := sin, exchange_script := ex,
                    requests := requests w @ exchangeRequests (a # accs) codes,
                    stdout := stdout w @ consentPrompts L (a # accs)\<rparr>)"
    using codes toks by (simp add: exchangeRequests_def consentPrompts_def)
  finally show ?case .
qed

lemma buildConfigs_eq: "buildConfigs accs d = d\<lparr>configs := configs d @ map newConfig accs\<rparr>"
  by (induction accs arbitrary: d) simp_all

lemma authorize_exchanges:
  assumes "getTokens L tokenPath w = stored"
    and "length stored < length (accounts d)"
    and "length codes = length (accounts d)" and "length toks = length (accounts d)"
    and "stdin w = map Inr codes @ sin"
    and "exchange_script w = map Inr toks @ ex"
    and "json_Marshal L (stored @ toks) = Inr j"
  shows "authorize L tokenPath d w
           = Ret (None,
                  d\<lparr>tokens := stored @ toks, configs := configs d @ map newConfig (accounts d)\<rparr>,
                  snd (ioutil_WriteFile tokenPath j
                         (w\<lparr>stdin := sin, exchange_script := ex,
                            requests := requests w @ exchangeRequests (accounts d) codes,
                            stdout := stdout w @ consentPrompts L (accounts d)\<rparr>)))"
proof -
  let ?d1 = "d\<lparr>tokens := stored\<rparr>"
  have "exchangeAll L (accounts ?d1) ?d1 w
          = Ret (?d1\<lparr>configs := configs ?d1 @ map newConfig (accounts ?d1),
                      tokens := tokens ?d1 @ toks\<rparr>,
                 w\<lparr>stdin := sin, exchange_script := ex,
                   requests := requests w @ exchangeRequests (accounts ?d1) codes,
                   stdout := stdout w @ consentPrompts L (accounts ?d1)\<rparr>)"
    using assms(3,4,5,6) by (intro exchangeAll_ok) simp_all
  then show ?thesis
    using assms(1,2,7)
    by (simp add: authorize_def storeTokens_def split: prod.split)
qed

lemma ioutil_WriteFile_effect:
  "write_calls (snd (ioutil_WriteFile path content w)) = write_calls w @ [(path, content)]
   \<and> requests (snd (ioutil_WriteFile path content w)) = requests w
   \<and> stdin (snd (ioutil_WriteFile path content w)) = stdin w
   \<and> exchange_script (snd (ioutil_WriteFile path content w)) = exchange_script w
   \<and> disk (snd (ioutil_WriteFile path content w)) path
       = (if write_error w path = None then Some content else disk w path)"
  by (simp add: ioutil_WriteFile_def split: option.split)

text \<open>
  The two branches of \<open>authorize\<close>. With at least one account and a token file that
  loads as the empty list, when the operator enters one code per account and each
  exchange answers with a token (and the tokens serialize): \<open>authorize\<close> returns
  \<^verbatim>\<open>nil\<close>, has issued exactly one exchange request per account, in account order,
  has built one configuration per account in that order, holds the exchanged tokens in
  that order, and has called the write of the token file once, with their
  serialization; the file holds it if that write succeeds. With at least as many
  loaded tokens as accounts, \<open>authorize\<close> returns \<^verbatim>\<open>nil\<close> with the loaded tokens and
  one configuration per account, and the world is unchanged: no exchange and no write.
\<close>

lemma authorize_consent_count:
  assumes "w' = snd (ioutil_WriteFile tokenPath j
                       (w\<lparr>stdin := sin, exchange_script := ex,
                          requests := requests w @ exchangeRequests (accounts d) codes,
                          stdout := stdout w @ consentPrompts L (accounts d)\<rparr>))"
  shows "(accounts d \<noteq> [] \<and> getTokens L tokenPath w = []
          \<and> length codes = length (accounts d) \<and> length toks = length (accounts d)
          \<and> stdin w = map Inr codes @ sin \<and> exchange_script w = map Inr toks @ ex
          \<and> json_Marshal L toks = Inr j
          \<longrightarrow> authorize L tokenPath d w
                = Ret (None,
                       d\<lparr>tokens := toks, configs := configs d @ map newConfig (accounts d)\<rparr>,
                       w')
              \<and> requests w' = requests w @ exchangeRequests (accounts d) codes
              \<and> length (exchangeRequests (accounts d) codes) = length (accounts d)
              \<and> stdin w' = sin \<and> exchange_script w' = ex
              \<and> write_calls w' = write_calls w @ [(tokenPath, j)]
              \<and> (write_error w tokenPath = None \<longrightarrow> disk w' tokenPath = Some j))
       \<and> (length (accounts d) \<le> length (getTokens L tokenPath w)
          \<longrightarrow> authorize L tokenPath d w
                = Ret (None,
                       d\<lparr>tokens := getTokens L tokenPath w,
                         configs := configs d @ map newConfig (accounts d)\<rparr>,
                       w))"
proof -
  have one: "authorize L tokenPath d w
                = Ret (None,
                       d\<lparr>tokens := toks, configs := configs d @ map newConfig (accounts d)\<rparr>,
                       w')
              \<and> requests w' = requests w @ exchangeRequests (accounts d) codes
              \<and> length (exchangeRequests (accounts d) codes) = length (accounts d)
              \<and> stdin w' = sin \<and> exchange_script w' = ex
              \<and> write_calls w' = write_calls w @ [(tokenPath, j)]
              \<and> (write_error w tokenPath = None \<longrightarrow> disk w' tokenPath = Some j)"
    if "accounts d \<noteq> []" and "getTokens L tokenPath w = []"
      and "length codes = length (accounts d)" and "length toks = length (accounts d)"
      and "stdin w = map Inr codes @ sin" and "exchange_script w = map Inr toks @ ex"
      and "json_Marshal L toks = Inr j"
  proof -
    have lt: "length ([] :: Token list) < length (accounts d)" using that(1) by simp
    have m: "json_Marshal L ([] @ toks) = Inr j" using that(7) by simp
    have "authorize L tokenPath d w
                = Ret (None,
                       d\<lparr>tokens := toks, configs := configs d @ map newConfig (accounts d)\<rparr>,
                       w')"
      using authorize_exchanges [OF that(2) lt that(3,4,5,6) m] assms by simp
    moreover have "length (exchangeRequests (accounts d) codes) = length (accounts d)"
      using that(3) by (simp add: exchangeRequests_def)
    ultimately show ?thesis
      using assms by (simp add: ioutil_WriteFile_effect)
  qed
  have two: "authorize L tokenPath d w
                = Ret (None,
                       d\<lparr>tokens := getTokens L tokenPath w,
                         configs := configs d @ map newConfig (accounts d)\<rparr>,
                       w)"
    if "length (accounts d) \<le> length (getTokens L tokenPath w)"
    using that by (simp add: authorize_def buildConfigs_eq)
  from one two show ?thesis by blast
qed

lemma token_strings: "AccessToken token1 = ''a1''" "AccessToken token2 = ''a2''"
  "AccessToken token3 = ''a3''"
  by (simp_all add: token1_def token2_def token3_def)

lemma authorize_consent_count_example:
  "accounts drive_new \<noteq> [] \<and> getTokens lib0 ''token.json'' world_consent = []
   \<and> authorize lib0 ''token.json'' drive_new world_consent
       = Ret (None,
              drive_new\<lparr>tokens := [token1, token2],
                        configs := [newConfig account1, newConfig account2]\<rparr>,
              world0\<lparr>requests := [ExchangeRequest (newConfig account1) ''c1'',
                                   ExchangeRequest (newConfig account2) ''c2''],
                     stdout := consentPrompts lib0 [account1, account2],
                     disk := [''token.json'' \<mapsto> ''a1;a2;''],
                     write_calls := [(''token.json'', ''a1;a2;'')]\<rparr>)
   \<and> length (accounts drive_new) \<le> length (getTokens lib0 ''token.json'' world_stored)
   \<and> authorize lib0 ''token.json'' drive_new world_stored
       = Ret (None,
              drive_new\<lparr>tokens := [token1, token2],
                        configs := [newConfig account1, newConfig account2]\<rparr>,
              world_stored)"
proof -
  let ?codes = "[''c1'', ''c2'']"
  let ?toks = "[token1, token2]"
  have acc: "accounts drive_new = [account1, account2]" "configs drive_new = []"
    by (simp_all add: drive_new_def)
  have ne: "accounts drive_new \<noteq> []" by (simp add: acc)
  have g0: "getTokens lib0 ''token.json'' world_consent = []"
    by (simp add: getTokens_def ioutil_ReadFile_def world_consent_def world0_def)
  have g2: "getTokens lib0 ''token.json'' world_stored = [token1, token2]"
    by (simp add: getTokens_def ioutil_ReadFile_def world_stored_def lib0_def)
  have le: "length (accounts drive_new) \<le> length (getTokens lib0 ''token.json'' world_stored)"
    by (simp add: acc g2)
  have si: "stdin world_consent = map Inr ?codes @ []"
    and ex: "exchange_script world_consent = map Inr ?toks @ []"
    by (simp_all add: world_consent_def)
  have m: "json_Marshal lib0 ?toks = Inr ''a1;a2;''"
    by (simp add: lib0_def token_strings)
  have prem: "accounts drive_new \<noteq> [] \<and> getTokens lib0 ''token.json'' world_consent = []
          \<and> length ?codes = length (accounts drive_new)
          \<and> length ?toks = length (accounts drive_new)
          \<and> stdin world_consent = map Inr ?codes @ []
          \<and> exchange_script world_consent = map Inr ?toks @ []
          \<and> json_Marshal lib0 ?toks = Inr ''a1;a2;''"
    using ne g0 si ex m by (simp add: acc)
  have w: "snd (ioutil_WriteFile ''token.json'' ''a1;a2;''
                 (world_consent\<lparr>stdin := [], exchange_script := [],
                    requests := requests world_consent @ exchangeRequests (accounts drive_new) ?codes,
                    stdout := stdout world_consent @ consentPrompts lib0 (accounts drive_new)\<rparr>))
           = world0\<lparr>requests := [ExchangeRequest (newConfig account1) ''c1'',
                                   ExchangeRequest (newConfig account2) ''c2''],
                     stdout := consentPrompts lib0 [account1, account2],
                     disk := [''token.json'' \<mapsto> ''a1;a2;''],
                     write_calls := [(''token.json'', ''a1;a2;'')]\<rparr>"
    by (simp add: ioutil_WriteFile_def world_consent_def world0_def acc exchangeRequests_def)
  note one = authorize_consent_count [where L = lib0 and d = drive_new and w = world_consent
      and codes = ?codes and toks = ?toks and sin = "[]" and ex = "[]" and j = "''a1;a2;''"
      and tokenPath = "''token.json''", OF refl, THEN conjunct1, THEN mp, OF prem, THEN conjunct1]
  note two = authorize_consent_count [where L = lib0 and d = drive_new and w = world_stored
      and tokenPath = "''token.json''", OF refl, THEN conjunct2, THEN mp, OF le]
  have a1: "authorize lib0 ''token.json'' drive_new world_consent
       = Ret (None,
              drive_new\<lparr>tokens := [token1, token2],
                        configs := [newConfig account1, newConfig account2]\<rparr>,
              world0\<lparr>requests := [ExchangeRequest (newConfig account1) ''c1'',
                                   ExchangeRequest (newConfig account2) ''c2''],
                     stdout := consentPrompts lib0 [account1, account2],
                     disk := [''token.json'' \<mapsto> ''a1;a2;''],
                     write_calls := [(''token.json'', ''a1;a2;'')]\<rparr>)"
    using one unfolding w by (simp add: acc)
  have a2: "authorize lib0 ''token.json'' drive_new world_stored
       = Ret (None,
              drive_new\<lparr>tokens := [token1, token2],
                        configs := [newConfig account1, newConfig account2]\<rparr>,
              world_stored)"
    using two unfolding g2 by (simp add: acc)
  from ne g0 a1 le a2 show ?thesis by blast
qed

lemma newConfig_fields:
  "ClientID_cfg (newConfig a) = ClientID a
   \<and> ClientSecret_cfg (newConfig a) = ClientSecret a
   \<and> AuthURL (Endpoint (newConfig a)) = ''https://accounts.google.com/o/oauth2/auth''
   \<and> TokenURL (Endpoint (newConfig a)) = ''https://accounts.google.com/o/oauth2/token''
   \<and> RedirectURL (newConfig a) = ''urn:ietf:wg:oauth:2.0:oob''
   \<and> Scopes (newConfig a) = [''https://www.googleapis.com/auth/drive'']"
  by (simp add: newConfig_def DriveScope_def)




text \<open>
  With \<open>k\<close> loaded tokens, \<open>0 < k < N\<close> for \<open>N\<close> accounts, and the exchanges
  answering as above: \<open>authorize\<close> holds the \<open>k\<close> loaded tokens followed by the \<open>N\<close>
  exchanged ones, \<open>k + N\<close> in all, and calls the write with the serialization of that
  list; the file holds it if that write succeeds. The token at the first position is
  the first loaded one, and the client built for a drive whose active index is 1 and
  that had no configuration before (as \<open>NewDriveClient\<close> makes it) pairs the first
  account's configuration with that loaded token.
\<close>

lemma authorize_appends_to_stale:
  assumes "getTokens L tokenPath w = stored"
    and "0 < length stored" and "length stored < length (accounts d)"
    and "length codes = length (accounts d)" and "length toks = length (accounts d)"
    and "stdin w = map Inr codes @ sin"
    and "exchange_script w = map Inr toks @ ex"
    and "json_Marshal L (stored @ toks) = Inr j"
    and "w' = snd (ioutil_WriteFile tokenPath j
                       (w\<lparr>stdin := sin, exchange_script := ex,
                          requests := requests w @ exchangeRequests (accounts d) codes,
                          stdout := stdout w @ consentPrompts L (accounts d)\<rparr>))"
    and "d' = d\<lparr>tokens := stored @ toks, configs := configs d @ map newConfig (accounts d)\<rparr>"
  shows "authorize L tokenPath d w = Ret (None, d', w')
       \<and> length (tokens d') = length stored + length (accounts d)
       \<and> take (length stored) (tokens d') = stored
       \<and> drop (length stored) (tokens d') = toks
       \<and> write_calls w' = write_calls w @ [(tokenPath, j)]
       \<and> (write_error w tokenPath = None \<longrightarrow> disk w' tokenPath = Some j)
       \<and> tokens d' ! 0 = stored ! 0
       \<and> (activeAccountID d = 1 \<and> configs d = [] \<longrightarrow>
            getClient L d' = Ret (gdrive_New L \<lparr>client_config = newConfig (accounts d ! 0),
                                                client_token = stored ! 0\<rparr>))"
proof -
  have a: "authorize L tokenPath d w = Ret (None, d', w')"
    using authorize_exchanges [OF assms(1,3,4,5,6,7,8)] assms(9,10) by simp
  have t: "tokens d' = stored @ toks" using assms(10) by simp
  have l: "length (tokens d') = length stored + length (accounts d)"
    using t assms(5) by simp
  have hd: "tokens d' ! 0 = stored ! 0"
    using t assms(2) by (simp add: nth_append)
  have gc: "getClient L d' = Ret (gdrive_New L \<lparr>client_config = newConfig (accounts d ! 0),
                                                client_token = stored ! 0\<rparr>)"
    if "activeAccountID d = 1" and "configs d = []"
  proof -
    have "accounts d \<noteq> []" using assms(2,3) by auto
    then have "configs d' ! 0 = newConfig (accounts d ! 0)" and "configs d' \<noteq> []"
      using that(2) assms(10) by (simp_all add: nth_map)
    moreover have "tokens d' \<noteq> []" using t assms(2) by auto
    moreover have "activeAccountID d' = 1" using that(1) assms(10) by simp
    ultimately show ?thesis using hd by (simp add: getClient_def)
  qed
  from a l t hd gc show ?thesis
    using assms(9) by (simp add: ioutil_WriteFile_effect)
qed

lemma authorize_appends_to_stale_example:
  "getTokens lib0 ''token.json'' world_stale = [token3]
   \<and> length [token3] < length (accounts drive_new)
   \<and> authorize lib0 ''token.json'' drive_new world_stale
       = Ret (None,
              drive_new\<lparr>tokens := [token3, token1, token2],
                        configs := [newConfig account1, newConfig account2]\<rparr>,
              world0\<lparr>requests := [ExchangeRequest (newConfig account1) ''c1'',
                                   ExchangeRequest (newConfig account2) ''c2''],
                     stdout := consentPrompts lib0 [account1, account2],
                     disk := [''token.json'' \<mapsto> ''a3;a1;a2;''],
                     write_calls := [(''token.json'', ''a3;a1;a2;'')]\<rparr>)
   \<and> getClient lib0 (drive_new\<lparr>tokens := [token3, token1, token2],
                                  configs := [newConfig account1, newConfig account2]\<rparr>)
       = Ret (Inr \<lparr>client = \<lparr>client_config = newConfig account1, client_token = token3\<rparr>\<rparr>)"
proof -
  let ?codes = "[''c1'', ''c2'']"
  let ?toks = "[token1, token2]"
  have acc: "accounts drive_new = [account1, account2]" "configs drive_new = []"
    "activeAccountID drive_new = 1"
    by (simp_all add: drive_new_def)
  have g: "getTokens lib0 ''token.json'' world_stale = [token3]"
    by (simp add: getTokens_def ioutil_ReadFile_def world_stale_def lib0_def)
  have pos: "0 < length [token3]" by simp
  have lt: "length [token3] < length (accounts drive_new)" by (simp add: acc)
  have lc: "length ?codes = length (accounts drive_new)"
    and ltk: "length ?toks = length (accounts drive_new)"
    by (simp_all add: acc)
  have si: "stdin world_stale = map Inr ?codes @ []"
    and ex: "exchange_script world_stale = map Inr ?toks @ []"
    by (simp_all add: world_stale_def world_consent_def)
  have m: "json_Marshal lib0 ([token3] @ ?toks) = Inr ''a3;a1;a2;''"
    by (simp add: lib0_def token_strings)
  have w: "snd (ioutil_WriteFile ''token.json'' ''a3;a1;a2;''
                 (world_stale\<lparr>stdin := [], exchange_script := [],
                    requests := requests world_stale @ exchangeRequests (accounts drive_new) ?codes,
                    stdout := stdout world_stale @ consentPrompts lib0 (accounts drive_new)\<rparr>))
           = world0\<lparr>requests := [ExchangeRequest (newConfig account1) ''c1'',
                                   ExchangeRequest (newConfig account2) ''c2''],
                     stdout := consentPrompts lib0 [account1, account2],
                     disk := [''token.json'' \<mapsto> ''a3;a1;a2;''],
                     write_calls := [(''token.json'', ''a3;a1;a2;'')]\<rparr>"
    by (simp add: ioutil_WriteFile_def world_stale_def world_consent_def world0_def acc
        exchangeRequests_def)
  have d: "drive_new\<lparr>tokens := [token3] @ ?toks,
                      configs := configs drive_new @ map newConfig (accounts drive_new)\<rparr>
           = drive_new\<lparr>tokens := [token3, token1, token2],
                        configs := [newConfig account1, newConfig account2]\<rparr>"
    by (simp add: acc)
  note th = authorize_appends_to_stale [OF g pos lt lc ltk si ex m refl refl, unfolded w d]
  have gn: "gdrive_New lib0 \<lparr>client_config = newConfig (accounts drive_new ! 0),
                              client_token = [token3] ! 0\<rparr>
            = Inr \<lparr>client = \<lparr>client_config = newConfig account1, client_token = token3\<rparr>\<rparr>"
    by (simp add: lib0_def acc)
  from th have a: "authorize lib0 ''token.json'' drive_new world_stale
       = Ret (None,
              drive_new\<lparr>tokens := [token3, token1, token2],
                        configs := [newConfig account1, newConfig account2]\<rparr>,
              world0\<lparr>requests := [ExchangeRequest (newConfig account1) ''c1'',
                                   ExchangeRequest (newConfig account2) ''c2''],
                     stdout := consentPrompts lib0 [account1, account2],
                     disk := [''token.json'' \<mapsto> ''a3;a1;a2;''],
                     write_calls := [(''token.json'', ''a3;a1;a2;'')]\<rparr>)"
    by blast
  from th acc(2,3) have "getClient lib0 (drive_new\<lparr>tokens := [token3, token1, token2],
                                  configs := [newConfig account1, newConfig account2]\<rparr>)
       = Ret (gdrive_New lib0 \<lparr>client_config = newConfig (accounts drive_new ! 0),
                                client_token = [token3] ! 0\<rparr>)"
    by blast
  then have c: "getClient lib0 (drive_new\<lparr>tokens := [token3, token1, token2],
                                  configs := [newConfig account1, newConfig account2]\<rparr>)
       = Ret (Inr \<lparr>client = \<lparr>client_config = newConfig account1, client_token = token3\<rparr>\<rparr>)"
    unfolding gn .
  from g lt a c show ?thesis by blast
qed


end
